theory Spec2Isabelle
  imports Main "HOL-Library.Sublist"
begin

section \<open>Shared vocabulary\<close>

text \<open>
  A Go call either returns, panics (a nil dereference, an index out of range, a fatal
  runtime error) or has not returned yet.  The third value stands for a goroutine that
  is still inside a loop or blocked when the observation ends; loops that can run for
  ever are written with an explicit bound on the observed prefix.
\<close>

datatype 'a outcome = Returned 'a | Panic | Running

section \<open>Keyspace: per-key locks and the creation gate (src/main.go, lines 56-112)\<close>

text \<open>\<open>context.Cause(ctx)\<close>: the reason a context was cancelled.\<close>

datatype cause = Canceled | DeadlineExceeded | Custom string

text \<open>
  \<open>sync.RWMutex\<close>, reduced to what the non-blocking entry points of the Go runtime
  look at: whether a writer holds the lock and how many readers do.
\<close>

record RWMutex =
  writer :: bool
  readers :: nat

definition TryLock :: "RWMutex \<Rightarrow> bool \<times> RWMutex" where
  "TryLock m = (if writer m \<or> 0 < readers m then (False, m) else (True, m\<lparr>writer := True\<rparr>))"

definition TryRLock :: "RWMutex \<Rightarrow> bool \<times> RWMutex" where
  "TryRLock m = (if writer m then (False, m) else (True, m\<lparr>readers := Suc (readers m)\<rparr>))"

text \<open>Unlocking a mutex that is not locked is a fatal runtime error (\<open>None\<close>).\<close>

definition Unlock :: "RWMutex \<Rightarrow> RWMutex option" where
  "Unlock m = (if writer m then Some (m\<lparr>writer := False\<rparr>) else None)"

definition RUnlock :: "RWMutex \<Rightarrow> RWMutex option" where
  "RUnlock m = (if 0 < readers m then Some (m\<lparr>readers := readers m - 1\<rparr>) else None)"

text \<open>
  The fields of \<open>Server\<close> that the keyspace operations touch: \<open>keyLocks\<close>, a Go map
  from key to \<open>*sync.RWMutex\<close> (a missing key reads as nil, here \<open>None\<close>), and
  \<open>keyCreationLock\<close>, the creation gate (\<open>True\<close> while some goroutine holds it).
\<close>

type_synonym locks = "string \<rightharpoonup> RWMutex"

record Server =
  keyLocks :: locks
  keyCreationLock :: bool

text \<open>
  What one goroutine does that another can observe.  \<open>TickWait n\<close> is one receive from
  the ticker created by \<open>time.NewTicker(5 * time.Millisecond)\<close>, with its period in
  milliseconds.
\<close>

datatype event =
    GateLock
  | GateUnlock
  | Install string
  | TryLockE string bool
  | TryRLockE string bool
  | TickWait nat

definition ticker_ms :: nat where
  "ticker_ms = 5"

text \<open>
  Other goroutines run between two polls of \<open>KeyLock\<close>.  A poll is what the loop body
  reads when it runs: whether \<open>ctx.Done()\<close> is closed (and with which cause), and the
  server, with its lock table, at that instant.  The list of polls is the observed prefix of the run; a
  loop that has used all of it without returning is \<open>Running\<close>.

  The \<open>select\<close> has a \<open>default\<close> branch, which Go takes only when no other case is
  ready: a closed \<open>ctx.Done()\<close> wins over the attempt to lock.
\<close>

type_synonym poll = "cause option \<times> Server"

fun KeyLock :: "poll list \<Rightarrow> string \<Rightarrow> ((bool \<times> cause option) \<times> Server) outcome \<times> event list" where
  "KeyLock [] key = (Running, [])"
| "KeyLock ((done, s) # rest) key =
     (case done of
        Some c \<Rightarrow> (Returned ((False, Some c), s), [])
      | None \<Rightarrow>
          (case keyLocks s key of
             None \<Rightarrow> (Panic, [])
           | Some m \<Rightarrow>
               (case TryLock m of
                  (True, m') \<Rightarrow>
                    (Returned ((True, None), s\<lparr>keyLocks := (keyLocks s)(key \<mapsto> m')\<rparr>),
                     [TryLockE key True])
                | (False, _) \<Rightarrow>
                    (case KeyLock rest key of
                       (r, evs) \<Rightarrow> (r, TryLockE key False # TickWait ticker_ms # evs)))))"

definition KeyUnlock :: "Server \<Rightarrow> string \<Rightarrow> Server outcome" where
  "KeyUnlock s key =
     (case keyLocks s key of
        None \<Rightarrow> Panic
      | Some m \<Rightarrow>
          (case Unlock m of
             None \<Rightarrow> Panic
           | Some m' \<Rightarrow> Returned (s\<lparr>keyLocks := (keyLocks s)(key \<mapsto> m')\<rparr>)))"

fun KeyRLock :: "poll list \<Rightarrow> string \<Rightarrow> ((bool \<times> cause option) \<times> Server) outcome \<times> event list" where
  "KeyRLock [] key = (Running, [])"
| "KeyRLock ((done, s) # rest) key =
     (case done of
        Some c \<Rightarrow> (Returned ((False, Some c), s), [])
      | None \<Rightarrow>
          (case keyLocks s key of
             None \<Rightarrow> (Panic, [])
           | Some m \<Rightarrow>
               (case TryRLock m of
                  (True, m') \<Rightarrow>
                    (Returned ((True, None), s\<lparr>keyLocks := (keyLocks s)(key \<mapsto> m')\<rparr>),
                     [TryRLockE key True])
                | (False, _) \<Rightarrow>
                    (case KeyRLock rest key of
                       (r, evs) \<Rightarrow> (r, TryRLockE key False # TickWait ticker_ms # evs)))))"

definition KeyRUnlock :: "Server \<Rightarrow> string \<Rightarrow> Server outcome" where
  "KeyRUnlock s key =
     (case keyLocks s key of
        None \<Rightarrow> Panic
      | Some m \<Rightarrow>
          (case RUnlock m of
             None \<Rightarrow> Panic
           | Some m' \<Rightarrow> Returned (s\<lparr>keyLocks := (keyLocks s)(key \<mapsto> m')\<rparr>)))"

definition KeyExists :: "Server \<Rightarrow> string \<Rightarrow> bool" where
  "KeyExists s key = (keyLocks s key \<noteq> None)"

text \<open>
  \<open>CreateKeyAndLock\<close> locks the gate and defers its unlock, so the unlock runs when the
  function returns or panics, after the call to \<open>KeyLock\<close> in the last line.  A call
  that finds the gate taken blocks in \<open>Lock()\<close>; a call whose \<open>KeyLock\<close> is still
  polling has not run the deferred unlock.
\<close>

definition CreateKeyAndLock ::
  "Server \<Rightarrow> poll list \<Rightarrow> string \<Rightarrow> ((bool \<times> cause option) \<times> Server) outcome \<times> event list" where
  "CreateKeyAndLock s polls key =
     (if keyCreationLock s then (Running, [])
      else
        let s1 = s\<lparr>keyCreationLock := True\<rparr> in
        if \<not> KeyExists s1 key then
          (Returned ((True, None),
             s1\<lparr>keyLocks := (keyLocks s1)(key \<mapsto> \<lparr>writer = True, readers = 0\<rparr>),
                keyCreationLock := False\<rparr>),
           [GateLock, Install key, GateUnlock])
        else
          (case KeyLock polls key of
             (Returned (r, s2), evs) \<Rightarrow>
               (Returned (r, s2\<lparr>keyCreationLock := False\<rparr>), GateLock # evs @ [GateUnlock])
           | (Panic, evs) \<Rightarrow> (Panic, GateLock # evs @ [GateUnlock])
           | (Running, evs) \<Rightarrow> (Running, GateLock # evs)))"

text \<open>
  Reading a trace: the events a goroutine performs while it holds the gate, and the
  events that belong to polling a key lock.
\<close>

fun held_events :: "bool \<Rightarrow> event list \<Rightarrow> event list" where
  "held_events h [] = []"
| "held_events h (GateLock # es) = held_events True es"
| "held_events h (GateUnlock # es) = held_events False es"
| "held_events h (e # es) = (if h then e # held_events h es else held_events h es)"

definition failed_polls :: "nat \<Rightarrow> event \<Rightarrow> event list" where
  "failed_polls n e = concat (replicate n [e, TickWait ticker_ms])"

text \<open>
  A poll that neither sees the context done nor finds the lock free, and a server whose
  lock for the key can be taken at once; \<open>try\<close> is \<open>TryLock\<close> or \<open>TryRLock\<close>.
\<close>

definition available :: "(RWMutex \<Rightarrow> bool \<times> RWMutex) \<Rightarrow> string \<Rightarrow> Server \<Rightarrow> bool" where
  "available try key s = (case keyLocks s key of None \<Rightarrow> False | Some m \<Rightarrow> fst (try m))"

definition busy_polls :: "(RWMutex \<Rightarrow> bool \<times> RWMutex) \<Rightarrow> string \<Rightarrow> poll list \<Rightarrow> bool" where
  "busy_polls try key pre =
     list_all (\<lambda>p. fst p = None \<and> KeyExists (snd p) key \<and> \<not> available try key (snd p)) pre"

fun is_poll :: "event \<Rightarrow> bool" where
  "is_poll (TryLockE _ _) = True"
| "is_poll (TryRLockE _ _) = True"
| "is_poll (TickWait _) = True"
| "is_poll _ = False"


section \<open>Command registry (src/main.go, lines 122-129 and 322-330)\<close>

text \<open>
  The fields of \<open>utils.Command\<close>, \<open>utils.Plugin\<close> and \<open>utils.ServerCommand\<close> that
  \<open>main.go\<close> reads.  \<open>utils.Command\<close> and \<open>utils.ServerCommand\<close> both have a field called
  \<open>Command\<close>: the name of the command in the first, the command in the second, here
  \<open>SCommand\<close>.  A plugin is the pair of its two methods; the handler is reduced to its
  result, an error message or the bytes of the reply.
\<close>

record Command =
  Command :: string
  Sync :: bool

record Plugin =
  Commands :: "Command list"
  HandleCommand :: "string list \<Rightarrow> string + string"

record ServerCommand =
  SCommand :: Command
  Plugin :: Plugin

type_synonym registry = "string \<rightharpoonup> ServerCommand"

text \<open>
  \<open>LoadCommands\<close> stores every command of the plugin in the Go map \<open>server.commands\<close>
  under its name, byte for byte.
\<close>

definition LoadCommands :: "Plugin \<Rightarrow> registry \<Rightarrow> registry" where
  "LoadCommands plugin commands =
     foldl (\<lambda>m command. m(Command command \<mapsto> \<lparr>SCommand = command, Plugin = plugin\<rparr>))
       commands (Commands plugin)"

text \<open>
  \<open>LoadModules\<close> calls \<open>LoadCommands\<close> once for each module, one after the other; the
  modules it loads are the argument.
\<close>

definition LoadModules :: "Plugin list \<Rightarrow> registry \<Rightarrow> registry" where
  "LoadModules plugins commands = foldl (\<lambda>m plugin. LoadCommands plugin m) commands plugins"

text \<open>
  \<open>strings.EqualFold\<close> of the Go standard library.  Its loop over ASCII bytes is written
  out; at the first position where either string has a byte from \<open>utf8.RuneSelf\<close> (128)
  up it continues on the two remainders with Unicode simple case folding, which is the
  parameter \<open>uni\<close>.
\<close>

definition RuneSelf :: nat where
  "RuneSelf = 128"

fun EqualFold :: "(string \<Rightarrow> string \<Rightarrow> bool) \<Rightarrow> string \<Rightarrow> string \<Rightarrow> bool" where
  "EqualFold uni (sr # s) (tr # t) =
     (if RuneSelf \<le> of_char sr \<or> RuneSelf \<le> of_char tr then uni (sr # s) (tr # t)
      else if tr = sr then EqualFold uni s t
      else
        let lo = min (of_char sr) (of_char tr) :: nat;
            hi = max (of_char sr) (of_char tr) :: nat
        in if of_char CHR ''A'' \<le> lo \<and> lo \<le> of_char CHR ''Z''
              \<and> hi = lo + of_char CHR ''a'' - of_char CHR ''A''
           then EqualFold uni s t
           else False)"
| "EqualFold uni [] t = (t = [])"
| "EqualFold uni s [] = (s = [])"

text \<open>
  \<open>getCommand\<close> ranges over the map and returns the first entry whose key folds to the
  name asked for.  Go leaves the order of a \<open>range\<close> over a map unspecified and draws it
  anew for every loop, so the order of this loop is an argument: the keys in the order
  in which the loop visits them.  A \<open>range\<close> visits every key of the map once
  (\<open>range_order\<close>); a key that is not in the map is never visited.
\<close>

definition range_order :: "string list \<Rightarrow> registry \<Rightarrow> bool" where
  "range_order order commands = (distinct order \<and> set order = dom commands)"

fun getCommand_range ::
  "(string \<Rightarrow> string \<Rightarrow> bool) \<Rightarrow> string list \<Rightarrow> registry \<Rightarrow> string \<Rightarrow> ServerCommand option" where
  "getCommand_range uni [] commands cmd = None"
| "getCommand_range uni (key # keys) commands cmd =
     (case commands key of
        None \<Rightarrow> getCommand_range uni keys commands cmd
      | Some command \<Rightarrow>
          if EqualFold uni key cmd then Some command
          else getCommand_range uni keys commands cmd)"

definition getCommand ::
  "(string \<Rightarrow> string \<Rightarrow> bool) \<Rightarrow> string list \<Rightarrow> registry \<Rightarrow> string \<Rightarrow> string + ServerCommand" where
  "getCommand uni order commands cmd =
     (case getCommand_range uni order commands cmd of
        Some command \<Rightarrow> Inr command
      | None \<Rightarrow> Inl (''command '' @ cmd @ '' not supported''))"

text \<open>
  The two spellings of a name at which the specification compares lookups, \<open>upper\<close>
  and \<open>lower\<close>, in the specification's words; nothing in the source computes them.
  They change ASCII letters only.
\<close>

definition to_upper :: "char \<Rightarrow> char" where
  "to_upper c =
     (if of_char CHR ''a'' \<le> (of_char c :: nat) \<and> (of_char c :: nat) \<le> of_char CHR ''z''
      then char_of (of_char c - 32 :: nat) else c)"

definition to_lower :: "char \<Rightarrow> char" where
  "to_lower c =
     (if of_char CHR ''A'' \<le> (of_char c :: nat) \<and> (of_char c :: nat) \<le> of_char CHR ''Z''
      then char_of (of_char c + 32 :: nat) else c)"

definition upper :: "string \<Rightarrow> string" where
  "upper = map to_upper"

definition lower :: "string \<Rightarrow> string" where
  "lower = map to_lower"

text \<open>
  What the theorems ask of the Unicode part of \<open>EqualFold\<close>: it does not tell an ASCII
  letter from the same letter in the other case, as simple case folding does not.
\<close>

definition folds_ascii_case :: "(string \<Rightarrow> string \<Rightarrow> bool) \<Rightarrow> bool" where
  "folds_ascii_case uni = (\<forall>s t. uni s (upper t) = uni s (lower t))"

text \<open>Two lookups agree: the same command, or not found both times.\<close>

fun same_result :: "string + ServerCommand \<Rightarrow> string + ServerCommand \<Rightarrow> bool" where
  "same_result (Inr c) (Inr d) = (c = d)"
| "same_result (Inl _) (Inl _) = True"
| "same_result _ _ = False"

text \<open>No name that can be asked for folds to two different keys of the registry.\<close>

definition fold_distinct :: "(string \<Rightarrow> string \<Rightarrow> bool) \<Rightarrow> registry \<Rightarrow> bool" where
  "fold_distinct uni commands =
     (\<forall>cmd. \<forall>k1\<in>dom commands. \<forall>k2\<in>dom commands.
        EqualFold uni k1 cmd \<and> EqualFold uni k2 cmd \<longrightarrow> k1 = k2)"

text \<open>
  Concrete values for the examples: a Unicode part that equates nothing, and a plugin
  with the given commands whose handler answers every command with the same bytes.
\<close>

definition no_unicode :: "string \<Rightarrow> string \<Rightarrow> bool" where
  "no_unicode s t = False"

definition const_plugin :: "Command list \<Rightarrow> string \<Rightarrow> Plugin" where
  "const_plugin cs reply = \<lparr>Commands = cs, HandleCommand = (\<lambda>cmd. Inr reply)\<rparr>"

section \<open>Dispatcher (src/main.go, lines 131-255 and 368-370)\<close>

text \<open>
  \<open>utils.SubCommand\<close>, \<open>utils.ApplyRequest\<close> and \<open>utils.ApplyResponse\<close> with the fields that
  \<open>main.go\<close> reads or writes.  The \<open>Sync\<close> field of a subcommand is \<open>SubSync\<close> here.
\<close>

record SubCommand =
  SubSync :: bool

record ApplyRequest =
  ServerID :: string
  ConnectionID :: string
  CMD :: "string list"

record ApplyResponse =
  Error :: "string option"
  Response :: string

text \<open>
  What \<open>raft.Apply\<close> hands back: the error of the future, or its response, which the
  dispatcher asserts to be a \<open>utils.ApplyResponse\<close> (\<open>None\<close> when the assertion fails).
\<close>

datatype future = FutureError string | FutureResponse "ApplyResponse option"

record Config =
  BootstrapCluster :: bool
  JoinAddr :: string

text \<open>
  Everything \<open>handleConnection\<close> consults outside itself while it serves one message:
  \<^item> \<open>config\<close> and \<open>commands\<close>, fields of the server;
  \<^item> \<open>unicodeFold\<close>, the Unicode part of \<open>strings.EqualFold\<close>;
  \<^item> \<open>lookup_order\<close> and \<open>plugin_lookup_order\<close>, the orders in which the two \<open>range\<close>
    loops over the registry run: \<open>getCommand\<close> is called once by \<open>handleConnection\<close> and
    once more by \<open>handlePluginCommand\<close>;
  \<^item> \<open>Decode\<close> (\<open>utils.Decode\<close>), \<open>GetSubCommand\<close> (\<open>utils.GetSubCommand\<close> followed by the
    type assertion to \<open>utils.SubCommand\<close>: \<open>None\<close> when it fails) and
    \<open>AuthorizeConnection\<close> (the ACL: \<open>None\<close> for nil, or the error), which live in other
    packages and are taken as they are;
  \<^item> \<open>ctxServerID\<close> and \<open>ctxConnectionID\<close>, the two values read from the context;
  \<^item> \<open>encode\<close>, the JSON text \<open>json.Marshal\<close> produces for a request;
  \<^item> \<open>isRaftLeader\<close> and \<open>raftApply\<close>, the consensus library;
  \<^item> \<open>showZeroResponse\<close>, the text \<open>%v\<close> prints for the zero \<open>utils.ApplyResponse\<close>.
\<close>

record Env =
  config :: Config
  commands :: registry
  unicodeFold :: "string \<Rightarrow> string \<Rightarrow> bool"
  lookup_order :: "string list"
  plugin_lookup_order :: "string list"
  Decode :: "string \<Rightarrow> string + string list"
  GetSubCommand :: "ServerCommand \<Rightarrow> string list \<Rightarrow> SubCommand option"
  AuthorizeConnection :: "string list \<Rightarrow> Command \<Rightarrow> SubCommand option \<Rightarrow> string option"
  ctxServerID :: string
  ctxConnectionID :: string
  encode :: "ApplyRequest \<Rightarrow> string"
  isRaftLeader :: bool
  raftApply :: "string \<Rightarrow> future"
  showZeroResponse :: string

definition IsInCluster :: "Config \<Rightarrow> bool" where
  "IsInCluster c = (BootstrapCluster c \<or> JoinAddr c \<noteq> [])"

text \<open>
  \<open>json.Marshal\<close> on a struct of two strings and a slice of strings: it has no error
  to report (invalid UTF-8 is replaced, not rejected), so the result is always the
  encoding.  The dispatcher tests the error all the same, and so does the model.
\<close>

definition json_Marshal :: "(ApplyRequest \<Rightarrow> string) \<Rightarrow> ApplyRequest \<Rightarrow> string + string" where
  "json_Marshal enc req = Inr (enc req)"

definition CR :: char where
  "CR = CHR 0x0D"

definition LF :: char where
  "LF = CHR 0x0A"

text \<open>
  One constructor for each statement of \<open>handleConnection\<close> that writes to the client, in
  the order of the source (lines 162, 169, 186, 193, 195, 214, 223, 231, 237, 242, 248),
  and the bytes each of them writes.
\<close>

datatype response =
    DecodeError string
  | UnknownCommand string
  | Denied string
  | HandlerError string
  | HandlerResponse string
  | MarshalError
  | ProposalError string
  | Unprocessable string
  | ApplyError string
  | ApplyOk string
  | NotLeader

fun wire :: "response \<Rightarrow> string" where
  "wire (DecodeError err) = ''-Error '' @ err @ [CR, LF, LF]"
| "wire (UnknownCommand err) = ''-'' @ err @ [CR, LF, LF]"
| "wire (Denied err) = ''-'' @ err @ [CR, LF, LF]"
| "wire (HandlerError err) = ''-'' @ err @ [CR, LF, LF]"
| "wire (HandlerResponse res) = res"
| "wire MarshalError = ''-Error could not parse request'' @ [CR, LF, LF]"
| "wire (ProposalError err) = ''-Error '' @ err @ [CR, LF, LF]"
| "wire (Unprocessable r) = ''-Error unprocessable entity '' @ r @ [CR, LF, LF]"
| "wire (ApplyError err) = ''-Error '' @ err @ [CR, LF, LF]"
| "wire (ApplyOk res) = res"
| "wire NotLeader = ''-Error not cluster leader, cannot carry out command'' @ [CR, LF, LF]"

text \<open>
  What serving a message does that the claims speak of: the handler of the plugin of a
  registered command is called in this process with the command vector, a record is
  submitted to the consensus log, a response is written and flushed, or the goroutine
  panics (\<open>cmd[0]\<close> on an empty command).
\<close>

datatype effect =
    Invoke ServerCommand "string list"
  | Submit string
  | Reply response
  | Fault

definition handlePluginCommand :: "Env \<Rightarrow> string list \<Rightarrow> (string + string) outcome \<times> effect list" where
  "handlePluginCommand env cmd =
     (case cmd of
        [] \<Rightarrow> (Panic, [Fault])
      | c0 # _ \<Rightarrow>
          (case getCommand (unicodeFold env) (plugin_lookup_order env) (commands env) c0 of
             Inl err \<Rightarrow> (Returned (Inl err), [])
           | Inr command \<Rightarrow> (Returned (HandleCommand (Plugin command) cmd), [Invoke command cmd])))"

text \<open>The value of the variable \<open>synchronize\<close> after line 183.\<close>

definition synchronize :: "Env \<Rightarrow> ServerCommand \<Rightarrow> string list \<Rightarrow> bool" where
  "synchronize env command cmd =
     (case GetSubCommand env command cmd of
        Some subCommand \<Rightarrow> SubSync subCommand
      | None \<Rightarrow> Sync (SCommand command))"

text \<open>Lines 201-250: the command goes to the cluster.\<close>

definition handleSynced :: "Env \<Rightarrow> string list \<Rightarrow> effect list" where
  "handleSynced env cmd =
     (case json_Marshal (encode env)
             \<lparr>ServerID = ctxServerID env, ConnectionID = ctxConnectionID env, CMD = cmd\<rparr> of
        Inl err \<Rightarrow> [Reply MarshalError]
      | Inr b \<Rightarrow>
          if isRaftLeader env then
            (case raftApply env b of
               FutureError err \<Rightarrow> [Submit b, Reply (ProposalError err)]
             | FutureResponse None \<Rightarrow> [Submit b, Reply (Unprocessable (showZeroResponse env))]
             | FutureResponse (Some r) \<Rightarrow>
                 (case Error r of
                    Some err \<Rightarrow> [Submit b, Reply (ApplyError err)]
                  | None \<Rightarrow> [Submit b, Reply (ApplyOk (Response r))]))
          else [Reply NotLeader])"

text \<open>Lines 160-251: the body of the loop, from a message that was read.\<close>

definition handleMessage :: "Env \<Rightarrow> string \<Rightarrow> effect list" where
  "handleMessage env message =
     (case Decode env message of
        Inl err \<Rightarrow> [Reply (DecodeError err)]
      | Inr cmd \<Rightarrow>
          (case cmd of
             [] \<Rightarrow> [Fault]
           | c0 # _ \<Rightarrow>
               (case getCommand (unicodeFold env) (lookup_order env) (commands env) c0 of
                  Inl err \<Rightarrow> [Reply (UnknownCommand err)]
                | Inr command \<Rightarrow>
                    (case AuthorizeConnection env cmd (SCommand command)
                            (GetSubCommand env command cmd) of
                       Some err \<Rightarrow> [Reply (Denied err)]
                     | None \<Rightarrow>
                         if \<not> IsInCluster (config env) \<or> \<not> synchronize env command cmd then
                           (case handlePluginCommand env cmd of
                              (Returned (Inl err), effs) \<Rightarrow> effs @ [Reply (HandlerError err)]
                            | (Returned (Inr res), effs) \<Rightarrow> effs @ [Reply (HandlerResponse res)]
                            | (_, effs) \<Rightarrow> effs)
                         else handleSynced env cmd))))"

text \<open>
  The loop of \<open>handleConnection\<close> over what \<open>utils.ReadMessage\<close> returns: it stops at
  end of file, skips any other read error, and serves a message.  Each round comes with
  the surroundings it runs in, since handlers and the cluster change them in between.
\<close>

datatype read = Message string | ReadError string | EOF

fun handleConnection :: "(read \<times> Env) list \<Rightarrow> effect list" where
  "handleConnection [] = []"
| "handleConnection ((EOF, env) # rest) = []"
| "handleConnection ((ReadError err, env) # rest) = handleConnection rest"
| "handleConnection ((Message message, env) # rest) =
     (let effs = handleMessage env message
      in if Fault \<in> set effs then effs else effs @ handleConnection rest)"

text \<open>
  The bytes that reach the client, in the order in which they are written, and the
  shape of an error line as the dispatcher writes it: \<open>-\<close>, a text, carriage return,
  line feed and one more line feed.
\<close>

fun written :: "effect list \<Rightarrow> string list" where
  "written [] = []"
| "written (Reply r # effs) = wire r # written effs"
| "written (_ # effs) = written effs"

definition error_line :: "string \<Rightarrow> string" where
  "error_line text = CHR ''-'' # text @ [CR, LF] @ [LF]"

text \<open>
  Surroundings for the examples: a node that knows \<open>SET\<close> (to be replicated) and \<open>GET\<close>
  (local), splits a message at spaces, authorizes everything, and whose log applies
  every record with \<open>+OK\<close>.
\<close>

fun tokens :: "string \<Rightarrow> string \<Rightarrow> string list" where
  "tokens acc [] = [rev acc]"
| "tokens acc (c # cs) =
     (if c = CHR '' '' then rev acc # tokens [] cs else tokens (c # acc) cs)"

definition example_SET :: ServerCommand where
  "example_SET =
     \<lparr>SCommand = \<lparr>Command = ''SET'', Sync = True\<rparr>,
      Plugin = const_plugin [\<lparr>Command = ''SET'', Sync = True\<rparr>] ''+OK''\<rparr>"

definition example_GET :: ServerCommand where
  "example_GET =
     \<lparr>SCommand = \<lparr>Command = ''GET'', Sync = False\<rparr>,
      Plugin = const_plugin [\<lparr>Command = ''GET'', Sync = False\<rparr>] ''$1''\<rparr>"

definition example_registry :: registry where
  "example_registry =
     LoadCommands (Plugin example_GET) (LoadCommands (Plugin example_SET) Map.empty)"

definition example_env :: "bool \<Rightarrow> bool \<Rightarrow> Env" where
  "example_env clustered leader =
     \<lparr>config = \<lparr>BootstrapCluster = clustered, JoinAddr = []\<rparr>,
      commands = example_registry,
      unicodeFold = no_unicode,
      lookup_order = [''SET'', ''GET''],
      plugin_lookup_order = [''GET'', ''SET''],
      Decode = (\<lambda>m. if m = [] then Inl ''empty message'' else Inr (tokens [] m)),
      GetSubCommand = (\<lambda>command cmd. None),
      AuthorizeConnection = (\<lambda>cmd command sub. None),
      ctxServerID = ''1'',
      ctxConnectionID = ''1-1'',
      encode = (\<lambda>req. concat (CMD req)),
      isRaftLeader = leader,
      raftApply = (\<lambda>b. FutureResponse (Some \<lparr>Error = None, Response = ''+OK''\<rparr>)),
      showZeroResponse = ''{<nil> []}''\<rparr>"


section \<open>Linked list (src/server/utils/linked_list.go)\<close>

text \<open>
  Nodes live in a heap, a list of cells; the address of a node is its index, a pointer
  is an address or nil (\<open>None\<close>), and \<open>NewNode\<close> allocates at the end.  The fields
  \<open>value\<close> and \<open>next\<close> of the source are \<open>node_value\<close> and \<open>node_next\<close>.
\<close>

record 'a Node =
  node_value :: 'a
  node_next :: "nat option"

type_synonym 'a heap = "'a Node list"

record LinkedListOptions =
  Ring :: bool

record LinkedList =
  head :: "nat option"
  tail :: "nat option"
  ring :: bool

definition NewNode :: "'a heap \<Rightarrow> 'a \<Rightarrow> nat option \<Rightarrow> 'a heap \<times> nat option" where
  "NewNode h v nx = (h @ [\<lparr>node_value = v, node_next = nx\<rparr>], Some (length h))"

definition NewLinkedList :: "LinkedListOptions \<Rightarrow> 'a heap \<times> LinkedList" where
  "NewLinkedList options = ([], \<lparr>head = None, tail = None, ring = Ring options\<rparr>)"

text \<open>
  Reading and writing through a pointer.  \<open>None\<close> is the panic of the Go runtime on a
  nil pointer (an address outside the heap does not occur: pointers come from
  \<open>NewNode\<close>).
\<close>

fun deref :: "'a heap \<Rightarrow> nat option \<Rightarrow> 'a Node option" where
  "deref h None = None"
| "deref h (Some a) = (if a < length h then Some (h ! a) else None)"

fun store_next :: "'a heap \<Rightarrow> nat option \<Rightarrow> nat option \<Rightarrow> 'a heap option" where
  "store_next h None nx = None"
| "store_next h (Some a) nx =
     (if a < length h then Some (h[a := (h ! a)\<lparr>node_next := nx\<rparr>]) else None)"

definition Add :: "'a \<Rightarrow> 'a heap \<times> LinkedList \<Rightarrow> ('a heap \<times> LinkedList) outcome" where
  "Add v st =
     (case st of (h, l) \<Rightarrow>
        if head l = None then
          (case NewNode h v None of (h1, n) \<Rightarrow> Returned (h1, l\<lparr>head := n\<rparr>))
        else if tail l = None \<and> \<not> ring l then
          (case NewNode h v None of (h1, n) \<Rightarrow>
             (case store_next h1 (head l) n of
                None \<Rightarrow> Panic
              | Some h2 \<Rightarrow> Returned (h2, l\<lparr>tail := n\<rparr>)))
        else if tail l = None \<and> ring l then
          (case NewNode h v (head l) of (h1, n) \<Rightarrow>
             (case store_next h1 (head l) n of
                None \<Rightarrow> Panic
              | Some h2 \<Rightarrow> Returned (h2, l\<lparr>tail := n\<rparr>)))
        else if \<not> ring l then
          (case NewNode h v None of (h1, n) \<Rightarrow>
             (case store_next h1 (tail l) n of
                None \<Rightarrow> Panic
              | Some h2 \<Rightarrow> Returned (h2, l\<lparr>tail := n\<rparr>)))
        else
          (case NewNode h v (head l) of (h1, n) \<Rightarrow>
             (case store_next h1 (tail l) n of
                None \<Rightarrow> Panic
              | Some h2 \<Rightarrow> Returned (h2, l\<lparr>tail := n\<rparr>))))"

text \<open>
  The loops of \<open>Contains\<close> and \<open>Remove\<close> have no bound of their own; the first argument is
  the number of iterations observed, and a loop that needs more is \<open>Running\<close>.
\<close>

fun Contains_loop :: "nat \<Rightarrow> 'a \<Rightarrow> 'a heap \<Rightarrow> LinkedList \<Rightarrow> nat option \<Rightarrow> bool outcome" where
  "Contains_loop 0 v h l n = Running"
| "Contains_loop (Suc k) v h l n =
     (if n = None \<or> n = head l then Returned False
      else
        (case deref h n of
           None \<Rightarrow> Panic
         | Some nd \<Rightarrow>
             if node_value nd = v then Returned True
             else Contains_loop k v h l (node_next nd)))"

definition Contains :: "nat \<Rightarrow> 'a \<Rightarrow> 'a heap \<times> LinkedList \<Rightarrow> bool outcome" where
  "Contains fuel v st =
     (case st of (h, l) \<Rightarrow>
        if head l = None then Returned False
        else
          (case deref h (head l) of
             None \<Rightarrow> Panic
           | Some nd \<Rightarrow>
               if node_value nd = v then Returned True
               else if node_next nd = None \<and> node_value nd \<noteq> v then Returned False
               else Contains_loop fuel v h l (node_next nd)))"

text \<open>The loop of lines 88-97 (linear list, the head is not the node looked for).\<close>

fun Remove_linear ::
  "nat \<Rightarrow> 'a \<Rightarrow> 'a heap \<Rightarrow> LinkedList \<Rightarrow> nat option \<Rightarrow> ('a heap \<times> LinkedList) outcome" where
  "Remove_linear 0 v h l n = Running"
| "Remove_linear (Suc k) v h l n =
     (case deref h n of
        None \<Rightarrow> Panic
      | Some nd \<Rightarrow>
          (case deref h (node_next nd) of
             None \<Rightarrow> Panic
           | Some nx \<Rightarrow>
               if node_value nx = v then
                 (case store_next h n (node_next nx) of
                    None \<Rightarrow> Panic
                  | Some h1 \<Rightarrow>
                      if node_next nx = None then Returned (h1, l\<lparr>tail := n\<rparr>)
                      else Returned (h1, l))
               else Remove_linear k v h l (node_next nd)))"

text \<open>
  The loop of lines 120-133 (ring, neither the head nor its successor is the node
  looked for).  After unlinking a node that is not the tail the loop goes on.
\<close>

fun Remove_ring ::
  "nat \<Rightarrow> 'a \<Rightarrow> 'a heap \<Rightarrow> LinkedList \<Rightarrow> nat option \<Rightarrow> ('a heap \<times> LinkedList) outcome" where
  "Remove_ring 0 v h l n = Running"
| "Remove_ring (Suc k) v h l n =
     (if n = head l then Returned (h, l)
      else
        (case deref h n of
           None \<Rightarrow> Panic
         | Some nd \<Rightarrow>
             (case deref h (node_next nd) of
                None \<Rightarrow> Panic
              | Some nx \<Rightarrow>
                  if node_value nx = v then
                    (if node_next nd = tail l then
                       (case store_next h n (head l) of
                          None \<Rightarrow> Panic
                        | Some h1 \<Rightarrow> Returned (h1, l\<lparr>tail := n\<rparr>))
                     else
                       (case store_next h n (node_next nx) of
                          None \<Rightarrow> Panic
                        | Some h1 \<Rightarrow> Remove_ring k v h1 l (node_next nx)))
                  else Remove_ring k v h l (node_next nd))))"

definition Remove :: "nat \<Rightarrow> 'a \<Rightarrow> 'a heap \<times> LinkedList \<Rightarrow> ('a heap \<times> LinkedList) outcome" where
  "Remove fuel v st =
     (case st of (h, l) \<Rightarrow>
        (case Contains fuel v (h, l) of
           Panic \<Rightarrow> Panic
         | Running \<Rightarrow> Running
         | Returned False \<Rightarrow> Returned (h, l)
         | Returned True \<Rightarrow>
             if head l = None then Returned (h, l)
             else
               (case deref h (head l) of
                  None \<Rightarrow> Panic
                | Some nd \<Rightarrow>
                    if node_next nd = None \<and> node_value nd \<noteq> v then Returned (h, l)
                    else if node_next nd = None \<and> node_value nd = v then
                      Returned (h, l\<lparr>head := None\<rparr>)
                    else if \<not> ring l then
                      (if node_value nd = v then Returned (h, l\<lparr>head := node_next nd\<rparr>)
                       else Remove_linear fuel v h l (head l))
                    else if node_value nd = v then
                      (case store_next h (tail l) (node_next nd) of
                         None \<Rightarrow> Panic
                       | Some h1 \<Rightarrow>
                           if node_next nd = tail l
                           then Returned (h1, l\<lparr>head := node_next nd, tail := None\<rparr>)
                           else Returned (h1, l\<lparr>head := node_next nd\<rparr>))
                    else
                      (case deref h (node_next nd) of
                         None \<Rightarrow> Panic
                       | Some nx \<Rightarrow>
                           if node_value nx = v then
                             (case store_next h (head l)
                                     (if node_next nd \<noteq> tail l then node_next nx else None) of
                                None \<Rightarrow> Panic
                              | Some h1 \<Rightarrow> Returned (h1, l))
                           else Remove_ring fuel v h l (node_next nd)))))"

text \<open>
  \<open>Iter\<close> starts a goroutine that sends the nodes on an unbuffered channel and closes
  it after the loop.  The result is what a consumer that keeps receiving has got after
  the given number of iterations of that loop: the nodes sent so far, and whether the
  channel has been closed (\<open>Returned\<close>) or the goroutine is still in the loop
  (\<open>Running\<close>).
\<close>

fun Iter_loop :: "nat \<Rightarrow> 'a heap \<Rightarrow> LinkedList \<Rightarrow> nat option \<Rightarrow> nat list \<times> unit outcome" where
  "Iter_loop 0 h l n = ([], Running)"
| "Iter_loop (Suc k) h l None = ([], Returned ())"
| "Iter_loop (Suc k) h l (Some a) =
     (case deref h (Some a) of
        None \<Rightarrow> ([a], Panic)
      | Some nd \<Rightarrow>
          (case Iter_loop k h l
                  (if Some a = head l \<and> node_next nd = None \<and> ring l then Some a
                   else node_next nd) of
             (sent, r) \<Rightarrow> (a # sent, r)))"

definition Iter :: "nat \<Rightarrow> 'a heap \<times> LinkedList \<Rightarrow> nat list \<times> unit outcome" where
  "Iter fuel st = (case st of (h, l) \<Rightarrow> Iter_loop fuel h l (head l))"

text \<open>
  The shapes of a list, as \<open>Add\<close> builds them and \<open>Iter\<close> reads them.  \<open>path h p as q\<close>:
  following \<open>next\<close> from \<open>p\<close> visits the nodes \<open>as\<close> and arrives at \<open>q\<close>.  A linear
  list is a path from the head to nil.  A ring is a path from the head back to the
  head, or the one node that \<open>Add\<close> leaves with a nil \<open>next\<close> in a list of one element.
\<close>

fun path :: "'a heap \<Rightarrow> nat option \<Rightarrow> nat list \<Rightarrow> nat option \<Rightarrow> bool" where
  "path h p [] q = (p = q)"
| "path h p (a # as) q = (p = Some a \<and> a < length h \<and> path h (node_next (h ! a)) as q)"

definition linear_list :: "'a heap \<times> LinkedList \<Rightarrow> nat list \<Rightarrow> bool" where
  "linear_list st as = (case st of (h, l) \<Rightarrow> \<not> ring l \<and> path h (head l) as None)"

definition ring_list :: "'a heap \<times> LinkedList \<Rightarrow> nat list \<Rightarrow> bool" where
  "ring_list st as =
     (case st of (h, l) \<Rightarrow>
        ring l \<and> as \<noteq> [] \<and>
        (path h (head l) as (head l) \<or> (length as = 1 \<and> path h (head l) as None)))"

text \<open>Helpers for the examples: a run of calls to \<open>Add\<close>, and the values of nodes.\<close>

fun Adds :: "'a list \<Rightarrow> 'a heap \<times> LinkedList \<Rightarrow> ('a heap \<times> LinkedList) outcome" where
  "Adds [] st = Returned st"
| "Adds (v # vs) st =
     (case Add v st of
        Returned st' \<Rightarrow> Adds vs st'
      | Panic \<Rightarrow> Panic
      | Running \<Rightarrow> Running)"

definition values_of :: "'a heap \<Rightarrow> nat list \<Rightarrow> 'a list" where
  "values_of h as = map (\<lambda>a. node_value (h ! a)) as"

text \<open>
  The list that \<open>Add\<close> has built from an empty one after the values \<open>vs\<close>, written out:
  node \<open>i\<close> holds the \<open>i\<close>-th value and points to node \<open>i + 1\<close>; the last node points to
  nil, or to node 0 in a ring of two nodes or more; \<open>tail\<close> is set from the second
  \<open>Add\<close> on.
\<close>

definition built :: "bool \<Rightarrow> 'a list \<Rightarrow> 'a heap \<times> LinkedList" where
  "built rg vs =
     (map (\<lambda>i. \<lparr>node_value = vs ! i,
                 node_next = (if Suc i < length vs then Some (Suc i)
                              else if rg \<and> 2 \<le> length vs then Some 0 else None)\<rparr>)
        [0..<length vs],
      \<lparr>head = (if vs = [] then None else Some 0),
       tail = (if length vs < 2 then None else Some (length vs - 1)),
       ring = rg\<rparr>)"

section \<open>Theorems: keyspace\<close>


lemma KeyLock_busy_prefix:
  "busy_polls TryLock key pre \<Longrightarrow>
   KeyLock (pre @ rest) key =
     (fst (KeyLock rest key), failed_polls (length pre) (TryLockE key False) @ snd (KeyLock rest key))"
proof (induction pre)
  case Nil
  then show ?case by (simp add: failed_polls_def)
next
  case (Cons p pre)
  obtain d s where p: "p = (d, s)" by (cases p)
  from Cons.prems p obtain m where m: "d = None" "keyLocks s key = Some m" "\<not> fst (TryLock m)"
    by (auto simp: busy_polls_def available_def KeyExists_def split: option.splits)
  from Cons.prems have "busy_polls TryLock key pre"
    by (simp add: busy_polls_def)
  from Cons.IH[OF this] m p show ?case
    by (cases "TryLock m") (simp add: failed_polls_def)
qed

lemma KeyRLock_busy_prefix:
  "busy_polls TryRLock key pre \<Longrightarrow>
   KeyRLock (pre @ rest) key =
     (fst (KeyRLock rest key), failed_polls (length pre) (TryRLockE key False) @ snd (KeyRLock rest key))"
proof (induction pre)
  case Nil
  then show ?case by (simp add: failed_polls_def)
next
  case (Cons p pre)
  obtain d s where p: "p = (d, s)" by (cases p)
  from Cons.prems p obtain m where m: "d = None" "keyLocks s key = Some m" "\<not> fst (TryRLock m)"
    by (auto simp: busy_polls_def available_def KeyExists_def split: option.splits)
  from Cons.prems have "busy_polls TryRLock key pre"
    by (simp add: busy_polls_def)
  from Cons.IH[OF this] m p show ?case
    by (cases "TryRLock m") (simp add: failed_polls_def)
qed

lemma KeyLock_first_free:
  "keyLocks s key = Some m \<Longrightarrow> fst (TryLock m) \<Longrightarrow>
   KeyLock ((None, s) # post) key =
     (Returned ((True, None), s\<lparr>keyLocks := (keyLocks s)(key \<mapsto> m\<lparr>writer := True\<rparr>)\<rparr>),
      [TryLockE key True])"
  by (simp add: TryLock_def split: if_splits)

lemma KeyRLock_first_free:
  "keyLocks s key = Some m \<Longrightarrow> fst (TryRLock m) \<Longrightarrow>
   KeyRLock ((None, s) # post) key =
     (Returned ((True, None), s\<lparr>keyLocks := (keyLocks s)(key \<mapsto> m\<lparr>readers := Suc (readers m)\<rparr>)\<rparr>),
      [TryRLockE key True])"
  by (simp add: TryRLock_def split: if_splits)

text \<open>
  Claim C6, as the code has it.  \<open>KeyLock\<close> and \<open>KeyRLock\<close> look at the context first
  and at the lock second, at every poll.  After any number of polls that found the
  context live and the lock taken, each followed by one wait for the 5 ms ticker: a poll
  that finds the context live and the lock free returns \<open>(true, nil)\<close> with the lock
  taken (with no wait at all when it is the first poll); a poll that finds the context
  done returns \<open>(false, cause)\<close> whatever the state of the lock; and while neither
  happens the call is still polling, one tick per failed attempt.
\<close>

theorem lock_polls_until_free_or_done:
  "(busy_polls TryLock key pre \<longrightarrow>
      (keyLocks s key = Some m \<and> fst (TryLock m) \<longrightarrow>
         KeyLock (pre @ (None, s) # post) key =
           (Returned ((True, None), s\<lparr>keyLocks := (keyLocks s)(key \<mapsto> m\<lparr>writer := True\<rparr>)\<rparr>),
            failed_polls (length pre) (TryLockE key False) @ [TryLockE key True]))
    \<and> KeyLock (pre @ (Some c, s) # post) key =
         (Returned ((False, Some c), s), failed_polls (length pre) (TryLockE key False))
    \<and> KeyLock pre key = (Running, failed_polls (length pre) (TryLockE key False)))
 \<and> (busy_polls TryRLock key pre \<longrightarrow>
      (keyLocks s key = Some m \<and> fst (TryRLock m) \<longrightarrow>
         KeyRLock (pre @ (None, s) # post) key =
           (Returned ((True, None), s\<lparr>keyLocks := (keyLocks s)(key \<mapsto> m\<lparr>readers := Suc (readers m)\<rparr>)\<rparr>),
            failed_polls (length pre) (TryRLockE key False) @ [TryRLockE key True]))
    \<and> KeyRLock (pre @ (Some c, s) # post) key =
         (Returned ((False, Some c), s), failed_polls (length pre) (TryRLockE key False))
    \<and> KeyRLock pre key = (Running, failed_polls (length pre) (TryRLockE key False)))"
proof (intro conjI impI)
  assume b: "busy_polls TryLock key pre"
  show "KeyLock (pre @ (Some c, s) # post) key =
         (Returned ((False, Some c), s), failed_polls (length pre) (TryLockE key False))"
    using KeyLock_busy_prefix[OF b, of "(Some c, s) # post"] by simp
  show "KeyLock pre key = (Running, failed_polls (length pre) (TryLockE key False))"
    using KeyLock_busy_prefix[OF b, of "[]"] by simp
  assume "keyLocks s key = Some m \<and> fst (TryLock m)"
  then show "KeyLock (pre @ (None, s) # post) key =
           (Returned ((True, None), s\<lparr>keyLocks := (keyLocks s)(key \<mapsto> m\<lparr>writer := True\<rparr>)\<rparr>),
            failed_polls (length pre) (TryLockE key False) @ [TryLockE key True])"
    using KeyLock_busy_prefix[OF b, of "(None, s) # post"] KeyLock_first_free[of s key m post]
    by simp
next
  assume b: "busy_polls TryRLock key pre"
  show "KeyRLock (pre @ (Some c, s) # post) key =
         (Returned ((False, Some c), s), failed_polls (length pre) (TryRLockE key False))"
    using KeyRLock_busy_prefix[OF b, of "(Some c, s) # post"] by simp
  show "KeyRLock pre key = (Running, failed_polls (length pre) (TryRLockE key False))"
    using KeyRLock_busy_prefix[OF b, of "[]"] by simp
  assume "keyLocks s key = Some m \<and> fst (TryRLock m)"
  then show "KeyRLock (pre @ (None, s) # post) key =
           (Returned ((True, None), s\<lparr>keyLocks := (keyLocks s)(key \<mapsto> m\<lparr>readers := Suc (readers m)\<rparr>)\<rparr>),
            failed_polls (length pre) (TryRLockE key False) @ [TryRLockE key True])"
    using KeyRLock_busy_prefix[OF b, of "(None, s) # post"] KeyRLock_first_free[of s key m post]
    by simp
qed

text \<open>
  Claim C10, as the code has it.  On a key with no entry in the lock table, \<open>KeyUnlock\<close>
  and \<open>KeyRUnlock\<close> always fault, and \<open>KeyLock\<close> and \<open>KeyRLock\<close> fault when their
  first poll finds the context live; when it finds the context done they return
  \<open>(false, cause)\<close> and never read the table.
\<close>

theorem nonexistent_key_faults:
  "\<not> KeyExists s key \<Longrightarrow>
     KeyUnlock s key = Panic
   \<and> KeyRUnlock s key = Panic
   \<and> KeyLock ((None, s) # rest) key = (Panic, [])
   \<and> KeyRLock ((None, s) # rest) key = (Panic, [])
   \<and> KeyLock ((Some c, s) # rest) key = (Returned ((False, Some c), s), [])
   \<and> KeyRLock ((Some c, s) # rest) key = (Returned ((False, Some c), s), [])"
  by (simp add: KeyExists_def KeyUnlock_def KeyRUnlock_def)

lemma KeyLock_events_held: "held_events True (snd (KeyLock polls key)) = snd (KeyLock polls key)"
proof (induction polls)
  case Nil
  show ?case by simp
next
  case (Cons p polls)
  obtain d s where p: "p = (d, s)" by (cases p)
  show ?case using Cons.IH
    by (cases "KeyLock polls key")
       (auto simp: p split: option.splits prod.splits bool.splits)
qed

lemma KeyLock_events_no_gate: "GateUnlock \<notin> set (snd (KeyLock polls key))"
proof (induction polls)
  case Nil
  show ?case by simp
next
  case (Cons p polls)
  obtain d s where p: "p = (d, s)" by (cases p)
  show ?case using Cons.IH
    by (cases "KeyLock polls key")
       (auto simp: p split: option.splits prod.splits bool.splits)
qed

lemma held_events_append_unlock:
  "held_events h (es @ [GateUnlock]) = held_events h es"
  by (induction h es rule: held_events.induct) auto

text \<open>
  Claim C1, as the code has it.  Entered with the gate free, \<open>CreateKeyAndLock\<close> on an
  absent key holds the gate only around the installation of the new, write-locked
  mutex.  On an existing key everything that \<open>KeyLock\<close> does (every attempt and every
  tick) happens while the gate is held, and the gate is released exactly when the call
  has returned or panicked: it is still held while the call polls.
\<close>

theorem gate_held_across_existing_key_lock:
  "\<not> keyCreationLock s \<Longrightarrow>
     (\<not> KeyExists s key \<longrightarrow>
        CreateKeyAndLock s polls key =
          (Returned ((True, None), s\<lparr>keyLocks := (keyLocks s)(key \<mapsto> \<lparr>writer = True, readers = 0\<rparr>)\<rparr>),
           [GateLock, Install key, GateUnlock]))
   \<and> (KeyExists s key \<longrightarrow>
        held_events False (snd (CreateKeyAndLock s polls key)) = snd (KeyLock polls key)
      \<and> (GateUnlock \<in> set (snd (CreateKeyAndLock s polls key))
           \<longleftrightarrow> fst (CreateKeyAndLock s polls key) \<noteq> Running))"
proof (intro conjI impI)
  assume g: "\<not> keyCreationLock s"
  { assume "\<not> KeyExists s key"
    with g show "CreateKeyAndLock s polls key =
          (Returned ((True, None), s\<lparr>keyLocks := (keyLocks s)(key \<mapsto> \<lparr>writer = True, readers = 0\<rparr>)\<rparr>),
           [GateLock, Install key, GateUnlock])"
      by (simp add: CreateKeyAndLock_def KeyExists_def Let_def) }
  assume e: "KeyExists s key"
  obtain r evs where k: "KeyLock polls key = (r, evs)" by (cases "KeyLock polls key")
  have h: "held_events True evs = evs" using KeyLock_events_held[of polls key] k by simp
  have n: "GateUnlock \<notin> set evs" using KeyLock_events_no_gate[of polls key] k by simp
  show "held_events False (snd (CreateKeyAndLock s polls key)) = snd (KeyLock polls key)"
    using g e k h
    by (cases r) (auto simp: CreateKeyAndLock_def KeyExists_def Let_def held_events_append_unlock)
  show "GateUnlock \<in> set (snd (CreateKeyAndLock s polls key))
           \<longleftrightarrow> fst (CreateKeyAndLock s polls key) \<noteq> Running"
    using g e k n
    by (cases r) (auto simp: CreateKeyAndLock_def KeyExists_def Let_def)
qed


theorem lock_polls_until_free_or_done_witness:
  "busy_polls TryLock ''k'' [(None, \<lparr>keyLocks = [''k'' \<mapsto> \<lparr>writer = True, readers = 0\<rparr>], keyCreationLock = False\<rparr>)]
   \<and> busy_polls TryRLock ''k'' [(None, \<lparr>keyLocks = [''k'' \<mapsto> \<lparr>writer = True, readers = 0\<rparr>], keyCreationLock = False\<rparr>)]
   \<and> fst (TryLock \<lparr>writer = False, readers = 0\<rparr>) \<and> fst (TryRLock \<lparr>writer = False, readers = 0\<rparr>)
   \<and> fst (KeyLock [(None, \<lparr>keyLocks = [''k'' \<mapsto> \<lparr>writer = True, readers = 0\<rparr>], keyCreationLock = False\<rparr>),
                    (None, \<lparr>keyLocks = [''k'' \<mapsto> \<lparr>writer = False, readers = 0\<rparr>], keyCreationLock = False\<rparr>)] ''k'')
       = Returned ((True, None), \<lparr>keyLocks = [''k'' \<mapsto> \<lparr>writer = True, readers = 0\<rparr>], keyCreationLock = False\<rparr>)
   \<and> snd (KeyLock [(None, \<lparr>keyLocks = [''k'' \<mapsto> \<lparr>writer = True, readers = 0\<rparr>], keyCreationLock = False\<rparr>),
                    (None, \<lparr>keyLocks = [''k'' \<mapsto> \<lparr>writer = False, readers = 0\<rparr>], keyCreationLock = False\<rparr>)] ''k'')
       = [TryLockE ''k'' False, TickWait 5, TryLockE ''k'' True]
   \<and> KeyRLock [(None, \<lparr>keyLocks = [''k'' \<mapsto> \<lparr>writer = True, readers = 0\<rparr>], keyCreationLock = False\<rparr>),
               (Some DeadlineExceeded, \<lparr>keyLocks = [''k'' \<mapsto> \<lparr>writer = False, readers = 0\<rparr>], keyCreationLock = False\<rparr>)] ''k''
       = (Returned ((False, Some DeadlineExceeded),
            \<lparr>keyLocks = [''k'' \<mapsto> \<lparr>writer = False, readers = 0\<rparr>], keyCreationLock = False\<rparr>),
          [TryRLockE ''k'' False, TickWait 5])"
  using lock_polls_until_free_or_done
    [of "''k''" "[(None, \<lparr>keyLocks = [''k'' \<mapsto> \<lparr>writer = True, readers = 0\<rparr>], keyCreationLock = False\<rparr>)]"
        "\<lparr>keyLocks = [''k'' \<mapsto> \<lparr>writer = False, readers = 0\<rparr>], keyCreationLock = False\<rparr>"
        "\<lparr>writer = False, readers = 0\<rparr>" "[]" DeadlineExceeded]
  by (simp add: busy_polls_def available_def KeyExists_def TryLock_def TryRLock_def
        failed_polls_def ticker_ms_def)

text \<open>
  Claim C6 as stated fails when the context is already done: the lock is free, and the
  call returns \<open>(false, Canceled)\<close> without trying it.
\<close>

theorem lock_free_but_context_done_counterexample:
  "available TryLock ''k'' \<lparr>keyLocks = [''k'' \<mapsto> \<lparr>writer = False, readers = 0\<rparr>], keyCreationLock = False\<rparr>
   \<and> KeyLock [(Some Canceled, \<lparr>keyLocks = [''k'' \<mapsto> \<lparr>writer = False, readers = 0\<rparr>], keyCreationLock = False\<rparr>)] ''k''
       = (Returned ((False, Some Canceled),
            \<lparr>keyLocks = [''k'' \<mapsto> \<lparr>writer = False, readers = 0\<rparr>], keyCreationLock = False\<rparr>), [])"
  by (simp add: available_def TryLock_def)

theorem nonexistent_key_faults_witness:
  "\<not> KeyExists \<lparr>keyLocks = Map.empty, keyCreationLock = False\<rparr> ''k''
   \<and> KeyUnlock \<lparr>keyLocks = Map.empty, keyCreationLock = False\<rparr> ''k'' = Panic
   \<and> KeyRUnlock \<lparr>keyLocks = Map.empty, keyCreationLock = False\<rparr> ''k'' = Panic
   \<and> KeyLock [(None, \<lparr>keyLocks = Map.empty, keyCreationLock = False\<rparr>)] ''k'' = (Panic, [])
   \<and> KeyRLock [(None, \<lparr>keyLocks = Map.empty, keyCreationLock = False\<rparr>)] ''k'' = (Panic, [])"
  using nonexistent_key_faults [of "\<lparr>keyLocks = Map.empty, keyCreationLock = False\<rparr>" "''k''" "[]" Canceled]
  by (simp add: KeyExists_def)

text \<open>
  Claim C10 as stated fails for a context that is already done: \<open>KeyLock\<close> on a key
  that does not exist returns the failure and does not fault.
\<close>

theorem nonexistent_key_context_done_counterexample:
  "\<not> KeyExists \<lparr>keyLocks = Map.empty, keyCreationLock = False\<rparr> ''k''
   \<and> fst (KeyLock [(Some Canceled, \<lparr>keyLocks = Map.empty, keyCreationLock = False\<rparr>)] ''k'')
       = Returned ((False, Some Canceled), \<lparr>keyLocks = Map.empty, keyCreationLock = False\<rparr>)
   \<and> fst (KeyLock [(Some Canceled, \<lparr>keyLocks = Map.empty, keyCreationLock = False\<rparr>)] ''k'') \<noteq> Panic"
  by (simp add: KeyExists_def)

theorem gate_held_across_existing_key_lock_witness:
  "\<not> keyCreationLock \<lparr>keyLocks = [''k'' \<mapsto> \<lparr>writer = True, readers = 0\<rparr>], keyCreationLock = False\<rparr>
   \<and> KeyExists \<lparr>keyLocks = [''k'' \<mapsto> \<lparr>writer = True, readers = 0\<rparr>], keyCreationLock = False\<rparr> ''k''
   \<and> held_events False (snd (CreateKeyAndLock
        \<lparr>keyLocks = [''k'' \<mapsto> \<lparr>writer = True, readers = 0\<rparr>], keyCreationLock = False\<rparr>
        [(None, \<lparr>keyLocks = [''k'' \<mapsto> \<lparr>writer = True, readers = 0\<rparr>], keyCreationLock = True\<rparr>),
         (None, \<lparr>keyLocks = [''k'' \<mapsto> \<lparr>writer = False, readers = 0\<rparr>], keyCreationLock = True\<rparr>)] ''k''))
       = [TryLockE ''k'' False, TickWait 5, TryLockE ''k'' True]
   \<and> \<not> KeyExists \<lparr>keyLocks = [''k'' \<mapsto> \<lparr>writer = True, readers = 0\<rparr>], keyCreationLock = False\<rparr> ''j''
   \<and> snd (CreateKeyAndLock
        \<lparr>keyLocks = [''k'' \<mapsto> \<lparr>writer = True, readers = 0\<rparr>], keyCreationLock = False\<rparr> [] ''j'')
       = [GateLock, Install ''j'', GateUnlock]"
  using gate_held_across_existing_key_lock
      [of "\<lparr>keyLocks = [''k'' \<mapsto> \<lparr>writer = True, readers = 0\<rparr>], keyCreationLock = False\<rparr>" "''k''"
          "[(None, \<lparr>keyLocks = [''k'' \<mapsto> \<lparr>writer = True, readers = 0\<rparr>], keyCreationLock = True\<rparr>),
            (None, \<lparr>keyLocks = [''k'' \<mapsto> \<lparr>writer = False, readers = 0\<rparr>], keyCreationLock = True\<rparr>)]"]
    gate_held_across_existing_key_lock
      [of "\<lparr>keyLocks = [''k'' \<mapsto> \<lparr>writer = True, readers = 0\<rparr>], keyCreationLock = False\<rparr>" "''j''" "[]"]
  by (simp add: KeyExists_def TryLock_def ticker_ms_def)

text \<open>
  Claim C1 as stated fails: on an existing key the attempt to lock happens between the
  acquisition of the gate and its release.
\<close>

theorem gate_not_released_before_lock_counterexample:
  "KeyExists \<lparr>keyLocks = [''k'' \<mapsto> \<lparr>writer = False, readers = 0\<rparr>], keyCreationLock = False\<rparr> ''k''
   \<and> snd (CreateKeyAndLock
        \<lparr>keyLocks = [''k'' \<mapsto> \<lparr>writer = False, readers = 0\<rparr>], keyCreationLock = False\<rparr>
        [(None, \<lparr>keyLocks = [''k'' \<mapsto> \<lparr>writer = False, readers = 0\<rparr>], keyCreationLock = True\<rparr>)] ''k'')
       = [GateLock, TryLockE ''k'' True, GateUnlock]
   \<and> filter is_poll (held_events False (snd (CreateKeyAndLock
        \<lparr>keyLocks = [''k'' \<mapsto> \<lparr>writer = False, readers = 0\<rparr>], keyCreationLock = False\<rparr>
        [(None, \<lparr>keyLocks = [''k'' \<mapsto> \<lparr>writer = False, readers = 0\<rparr>], keyCreationLock = True\<rparr>)] ''k'')))
       = [TryLockE ''k'' True]"
  by (simp add: KeyExists_def CreateKeyAndLock_def TryLock_def)


section \<open>Theorems: command registry\<close>


lemma of_char_lt_256: "(of_char c :: nat) < 256"
  by (cases c) simp

lemma of_char_to_upper:
  "(of_char (to_upper c) :: nat) =
     (if 97 \<le> (of_char c :: nat) \<and> (of_char c :: nat) \<le> 122 then of_char c - 32 else of_char c)"
  by (auto simp: to_upper_def)

lemma of_char_to_lower:
  "(of_char (to_lower c) :: nat) =
     (if 65 \<le> (of_char c :: nat) \<and> (of_char c :: nat) \<le> 90 then of_char c + 32 else of_char c)"
  by (auto simp: to_lower_def)

lemma EqualFold_Cons:
  "EqualFold uni (k # ks) (n # ns) =
     (if 128 \<le> (of_char k :: nat) \<or> 128 \<le> (of_char n :: nat) then uni (k # ks) (n # ns)
      else ((of_char n :: nat) = of_char k
            \<or> (65 \<le> min (of_char k) (of_char n :: nat) \<and> min (of_char k) (of_char n :: nat) \<le> 90
               \<and> max (of_char k) (of_char n :: nat) = min (of_char k) (of_char n) + 32))
           \<and> EqualFold uni ks ns)"
  by (auto simp: RuneSelf_def Let_def)

lemma upper_lower_Cons:
  "upper (n # ns) = to_upper n # upper ns" "lower (n # ns) = to_lower n # lower ns"
  "upper [] = []" "lower [] = []"
  by (simp_all add: upper_def lower_def)

lemma fold_step_nat:
  fixes a b :: nat
  shows "((if 97 \<le> b \<and> b \<le> 122 then b - 32 else b) = a
            \<or> (65 \<le> min a (if 97 \<le> b \<and> b \<le> 122 then b - 32 else b)
               \<and> min a (if 97 \<le> b \<and> b \<le> 122 then b - 32 else b) \<le> 90
               \<and> max a (if 97 \<le> b \<and> b \<le> 122 then b - 32 else b)
                   = min a (if 97 \<le> b \<and> b \<le> 122 then b - 32 else b) + 32))
       = ((if 65 \<le> b \<and> b \<le> 90 then b + 32 else b) = a
            \<or> (65 \<le> min a (if 65 \<le> b \<and> b \<le> 90 then b + 32 else b)
               \<and> min a (if 65 \<le> b \<and> b \<le> 90 then b + 32 else b) \<le> 90
               \<and> max a (if 65 \<le> b \<and> b \<le> 90 then b + 32 else b)
                   = min a (if 65 \<le> b \<and> b \<le> 90 then b + 32 else b) + 32))"
  by (auto simp: min_def max_def split: if_splits)

lemma EqualFold_upper_lower:
  assumes "folds_ascii_case uni"
  shows "EqualFold uni key (upper N) = EqualFold uni key (lower N)"
proof (induction key arbitrary: N)
  case Nil
  show ?case by (cases N) (simp_all add: upper_lower_Cons)
next
  case (Cons k ks)
  show ?case
  proof (cases N)
    case Nil
    then show ?thesis by (simp add: upper_lower_Cons)
  next
    case (Cons n ns)
    have u: "uni (k # ks) (to_upper n # upper ns) = uni (k # ks) (to_lower n # lower ns)"
      using assms by (simp add: folds_ascii_case_def upper_lower_Cons[symmetric])
    have ih: "EqualFold uni ks (upper ns) = EqualFold uni ks (lower ns)"
      by (rule Cons.IH)
    have hi: "(128 \<le> (of_char (to_upper n) :: nat)) = (128 \<le> (of_char n :: nat))"
             "(128 \<le> (of_char (to_lower n) :: nat)) = (128 \<le> (of_char n :: nat))"
      by (auto simp: of_char_to_upper of_char_to_lower)
    show ?thesis
      unfolding Cons upper_lower_Cons EqualFold_Cons hi ih u
      unfolding of_char_to_upper of_char_to_lower
      using fold_step_nat[of "of_char n" "of_char k"]
      by presburger
  qed
qed


lemma getCommand_range_None:
  "(getCommand_range uni order reg cmd = None)
     = (\<forall>k\<in>set order. k \<in> dom reg \<longrightarrow> \<not> EqualFold uni k cmd)"
  by (induction order) (auto split: option.splits)

lemma getCommand_range_Some:
  "getCommand_range uni order reg cmd = Some c \<Longrightarrow>
     \<exists>k\<in>set order. reg k = Some c \<and> EqualFold uni k cmd"
  by (induction order) (auto split: option.splits if_splits)

lemma getCommand_range_upper_lower:
  "folds_ascii_case uni \<Longrightarrow>
     getCommand_range uni order reg (upper N) = getCommand_range uni order reg (lower N)"
  by (induction order) (auto simp: EqualFold_upper_lower split: option.splits)

lemma getCommand_range_order_irrelevant:
  assumes d: "fold_distinct uni reg"
      and o1: "range_order o1 reg" and o2: "range_order o2 reg"
  shows "getCommand_range uni o1 reg cmd = getCommand_range uni o2 reg cmd"
proof (cases "getCommand_range uni o1 reg cmd")
  case None
  then have "\<forall>k\<in>dom reg. \<not> EqualFold uni k cmd"
    using o1 by (auto simp: getCommand_range_None range_order_def)
  then have "getCommand_range uni o2 reg cmd = None"
    using o2 by (auto simp: getCommand_range_None range_order_def)
  with None show ?thesis by simp
next
  case (Some c)
  then obtain k where k: "k \<in> set o1" "reg k = Some c" "EqualFold uni k cmd"
    by (blast dest: getCommand_range_Some)
  have "getCommand_range uni o2 reg cmd \<noteq> None"
    using k o1 o2 by (auto simp: getCommand_range_None range_order_def)
  then obtain c' where c': "getCommand_range uni o2 reg cmd = Some c'" by auto
  then obtain k' where k': "k' \<in> set o2" "reg k' = Some c'" "EqualFold uni k' cmd"
    by (blast dest: getCommand_range_Some)
  have "k = k'"
    using d k k' by (auto simp: fold_distinct_def dom_def)
  with k k' Some c' show ?thesis by simp
qed

text \<open>
  Claim C3, as the code has it.  For every name and every registry, one and the same
  iteration of the map gives the upper-case and the lower-case spelling the same result
  (the same command, or not found).  Two lookups are two iterations, each in an order
  of its own: they give the same result whenever no name folds to two different keys of
  the registry.
\<close>

theorem lookup_case_insensitive:
  "folds_ascii_case uni \<Longrightarrow>
     same_result (getCommand uni order reg (upper N)) (getCommand uni order reg (lower N))
   \<and> (fold_distinct uni reg \<and> range_order o1 reg \<and> range_order o2 reg \<longrightarrow>
        same_result (getCommand uni o1 reg (upper N)) (getCommand uni o2 reg (lower N)))"
proof (intro conjI impI)
  assume f: "folds_ascii_case uni"
  show "same_result (getCommand uni order reg (upper N)) (getCommand uni order reg (lower N))"
    using getCommand_range_upper_lower[OF f, of order reg N]
    by (simp add: getCommand_def split: option.splits)
  assume a: "fold_distinct uni reg \<and> range_order o1 reg \<and> range_order o2 reg"
  then have "getCommand_range uni o1 reg (upper N) = getCommand_range uni o2 reg (upper N)"
    by (intro getCommand_range_order_irrelevant) simp_all
  then show "same_result (getCommand uni o1 reg (upper N)) (getCommand uni o2 reg (lower N))"
    using getCommand_range_upper_lower[OF f, of o2 reg N]
    by (simp add: getCommand_def split: option.splits)
qed

lemma getCommand_range_unique:
  assumes o: "range_order order reg"
      and k: "reg key = Some c" "EqualFold uni key cmd"
      and u: "\<forall>k\<in>dom reg. k \<noteq> key \<longrightarrow> \<not> EqualFold uni k cmd"
  shows "getCommand_range uni order reg cmd = Some c"
proof -
  have "key \<in> set order" using o k by (auto simp: range_order_def)
  then have "getCommand_range uni order reg cmd \<noteq> None"
    using k by (auto simp: getCommand_range_None)
  then obtain c' where c': "getCommand_range uni order reg cmd = Some c'" by auto
  then obtain k' where k': "reg k' = Some c'" "EqualFold uni k' cmd"
    by (blast dest: getCommand_range_Some)
  then have "k' = key" using u by (auto simp: dom_def)
  with k k' c' show ?thesis by simp
qed


lemma register_fold_other:
  "\<forall>c\<in>set cs. Command c \<noteq> k \<Longrightarrow>
     foldl (\<lambda>m command. m(Command command \<mapsto> \<lparr>SCommand = command, Plugin = p\<rparr>)) reg cs k = reg k"
  by (induction cs arbitrary: reg) auto

lemma register_fold_dom:
  "dom (foldl (\<lambda>m command. m(Command command \<mapsto> \<lparr>SCommand = command, Plugin = p\<rparr>)) reg cs)
     = dom reg \<union> Command ` set cs"
  by (induction cs arbitrary: reg) auto

lemma LoadCommands_other:
  "\<forall>c\<in>set (Commands p). Command c \<noteq> k \<Longrightarrow> LoadCommands p reg k = reg k"
  by (simp add: LoadCommands_def register_fold_other)

lemma LoadCommands_last:
  assumes "Commands p = pre @ c # post" and "\<forall>x\<in>set post. Command x \<noteq> Command c"
  shows "LoadCommands p reg (Command c) = Some \<lparr>SCommand = c, Plugin = p\<rparr>"
  using assms by (simp add: LoadCommands_def register_fold_other)

lemma LoadCommands_dom: "dom (LoadCommands p reg) = dom reg \<union> Command ` set (Commands p)"
  by (simp add: LoadCommands_def register_fold_dom)

lemma LoadModules_other:
  "\<forall>p\<in>set ps. \<forall>c\<in>set (Commands p). Command c \<noteq> k \<Longrightarrow> LoadModules ps reg k = reg k"
proof (induction ps arbitrary: reg)
  case Nil
  show ?case by (simp add: LoadModules_def)
next
  case (Cons p ps)
  then have "LoadModules ps (LoadCommands p reg) k = LoadCommands p reg k"
    by simp
  moreover have "LoadCommands p reg k = reg k"
    using Cons.prems by (intro LoadCommands_other) simp
  ultimately show ?case by (simp add: LoadModules_def)
qed

text \<open>
  Claim C2, as the code has it.  The map is keyed by the exact name.  Whatever else
  the two plugins register: after the first load the entry under the name of \<open>c1\<close> is
  \<open>c1\<close>, the last command of that name in the slice of its plugin; after the second
  load, and after any later loads that do not register the name of \<open>c2\<close> again, the
  entry under the name of \<open>c2\<close> is \<open>c2\<close>, so \<open>c2\<close> has replaced \<open>c1\<close> when the two names
  are identical; every lookup from then on, in any case and in any iteration order,
  returns \<open>c2\<close>, provided no other key of the registry folds to the name asked for.
  When no command of the second plugin or of the later ones has exactly the name of
  \<open>c1\<close>, as when the two names differ in case only, the entry of \<open>c1\<close> stays beside that
  of \<open>c2\<close>.  A load adds exactly the names of the plugin to the keys.
\<close>

theorem exact_name_registration_overrides:
  assumes "Commands p1 = pre1 @ c1 # post1" and "\<forall>c\<in>set post1. Command c \<noteq> Command c1"
      and "Commands p2 = pre2 @ c2 # post2" and "\<forall>c\<in>set post2. Command c \<noteq> Command c2"
      and "\<forall>p\<in>set later. \<forall>c\<in>set (Commands p). Command c \<noteq> Command c2"
  shows "LoadCommands p1 reg (Command c1) = Some \<lparr>SCommand = c1, Plugin = p1\<rparr>
       \<and> LoadModules later (LoadCommands p2 (LoadCommands p1 reg)) (Command c2)
           = Some \<lparr>SCommand = c2, Plugin = p2\<rparr>
       \<and> (range_order order (LoadModules later (LoadCommands p2 (LoadCommands p1 reg)))
            \<and> EqualFold uni (Command c2) cmd
            \<and> (\<forall>k\<in>dom (LoadModules later (LoadCommands p2 (LoadCommands p1 reg))).
                  k \<noteq> Command c2 \<longrightarrow> \<not> EqualFold uni k cmd)
           \<longrightarrow> getCommand uni order (LoadModules later (LoadCommands p2 (LoadCommands p1 reg))) cmd
                 = Inr \<lparr>SCommand = c2, Plugin = p2\<rparr>)
       \<and> ((\<forall>c\<in>set (Commands p2). Command c \<noteq> Command c1)
            \<and> (\<forall>p\<in>set later. \<forall>c\<in>set (Commands p). Command c \<noteq> Command c1)
           \<longrightarrow> LoadModules later (LoadCommands p2 (LoadCommands p1 reg)) (Command c1)
                 = Some \<lparr>SCommand = c1, Plugin = p1\<rparr>)
       \<and> dom (LoadCommands p2 (LoadCommands p1 reg))
           = dom reg \<union> Command ` set (Commands p1) \<union> Command ` set (Commands p2)"
proof (intro conjI impI)
  show "dom (LoadCommands p2 (LoadCommands p1 reg))
           = dom reg \<union> Command ` set (Commands p1) \<union> Command ` set (Commands p2)"
    by (simp add: LoadCommands_dom)
  let ?r = "LoadModules later (LoadCommands p2 (LoadCommands p1 reg))"
  show first: "LoadCommands p1 reg (Command c1) = Some \<lparr>SCommand = c1, Plugin = p1\<rparr>"
    using assms(1,2) by (rule LoadCommands_last)
  have "?r (Command c2) = LoadCommands p2 (LoadCommands p1 reg) (Command c2)"
    using assms(5) by (rule LoadModules_other)
  also have "\<dots> = Some \<lparr>SCommand = c2, Plugin = p2\<rparr>"
    using assms(3,4) by (rule LoadCommands_last)
  finally show second: "?r (Command c2) = Some \<lparr>SCommand = c2, Plugin = p2\<rparr>" .
  { assume a: "range_order order ?r \<and> EqualFold uni (Command c2) cmd
            \<and> (\<forall>k\<in>dom ?r. k \<noteq> Command c2 \<longrightarrow> \<not> EqualFold uni k cmd)"
    then have "getCommand_range uni order ?r cmd = Some \<lparr>SCommand = c2, Plugin = p2\<rparr>"
      using second by (intro getCommand_range_unique[of order ?r "Command c2"]) simp_all
    then show "getCommand uni order ?r cmd = Inr \<lparr>SCommand = c2, Plugin = p2\<rparr>"
      by (simp add: getCommand_def) }
  { assume b: "(\<forall>c\<in>set (Commands p2). Command c \<noteq> Command c1)
            \<and> (\<forall>p\<in>set later. \<forall>c\<in>set (Commands p). Command c \<noteq> Command c1)"
    then have "?r (Command c1) = LoadCommands p2 (LoadCommands p1 reg) (Command c1)"
      by (intro LoadModules_other) simp
    also have "\<dots> = LoadCommands p1 reg (Command c1)"
      using b by (intro LoadCommands_other) simp
    finally show "?r (Command c1) = Some \<lparr>SCommand = c1, Plugin = p1\<rparr>"
      using first by simp }
qed


text \<open>Evaluations used by the examples below.\<close>

lemma EqualFold_examples: "EqualFold no_unicode ''get'' ''GET''" "EqualFold no_unicode ''GET'' ''get''"
   "EqualFold no_unicode ''GET'' ''GET''" "\<not> EqualFold no_unicode ''GET'' ''SET''"
   "EqualFold no_unicode ''get'' ''get''" "\<not> EqualFold no_unicode ''SET'' ''get''"
   "upper ''Get'' = ''GET''" "lower ''Get'' = ''get''" "upper ''get'' = ''GET''" "lower ''get'' = ''get''"
   "lower ''GET'' = ''get''"
  by code_simp+

text \<open>
  Claim C2 as stated fails for names that differ in case: after \<open>get\<close> and then \<open>GET\<close>
  are registered the map holds both, and a lookup of \<open>GET\<close> that visits \<open>get\<close> first
  returns the first command.
\<close>

theorem case_variant_registration_counterexample:
  "lower ''get'' = lower ''GET''
   \<and> range_order [''get'', ''GET'']
        (LoadCommands (const_plugin [\<lparr>Command = ''GET'', Sync = False\<rparr>] ''+second'')
          (LoadCommands (const_plugin [\<lparr>Command = ''get'', Sync = False\<rparr>] ''+first'') Map.empty))
   \<and> getCommand no_unicode [''get'', ''GET'']
        (LoadCommands (const_plugin [\<lparr>Command = ''GET'', Sync = False\<rparr>] ''+second'')
          (LoadCommands (const_plugin [\<lparr>Command = ''get'', Sync = False\<rparr>] ''+first'') Map.empty))
        ''GET''
       = Inr \<lparr>SCommand = \<lparr>Command = ''get'', Sync = False\<rparr>,
               Plugin = const_plugin [\<lparr>Command = ''get'', Sync = False\<rparr>] ''+first''\<rparr>"
  by (simp add: range_order_def LoadCommands_def const_plugin_def getCommand_def EqualFold_examples
        insert_commute del: EqualFold.simps)

lemma more_EqualFold_examples:
  "\<not> EqualFold no_unicode ''PING'' ''get''" "\<not> EqualFold no_unicode ''SET'' ''get''"
  "EqualFold no_unicode ''GET'' ''get''"
  by code_simp+

theorem exact_name_registration_overrides_witness:
  "range_order [''PING'', ''SET'', ''GET'']
     (LoadModules [const_plugin [\<lparr>Command = ''PING'', Sync = False\<rparr>] ''+PONG'']
       (LoadCommands
          (const_plugin [\<lparr>Command = ''GET'', Sync = False\<rparr>, \<lparr>Command = ''SET'', Sync = True\<rparr>,
                         \<lparr>Command = ''GET'', Sync = True\<rparr>] ''+second'')
          (LoadCommands (const_plugin [\<lparr>Command = ''GET'', Sync = False\<rparr>] ''+first'') Map.empty)))
   \<and> EqualFold no_unicode ''GET'' ''get''
   \<and> getCommand no_unicode [''PING'', ''SET'', ''GET'']
     (LoadModules [const_plugin [\<lparr>Command = ''PING'', Sync = False\<rparr>] ''+PONG'']
       (LoadCommands
          (const_plugin [\<lparr>Command = ''GET'', Sync = False\<rparr>, \<lparr>Command = ''SET'', Sync = True\<rparr>,
                         \<lparr>Command = ''GET'', Sync = True\<rparr>] ''+second'')
          (LoadCommands (const_plugin [\<lparr>Command = ''GET'', Sync = False\<rparr>] ''+first'') Map.empty)))
     ''get''
     = Inr \<lparr>SCommand = \<lparr>Command = ''GET'', Sync = True\<rparr>,
             Plugin = const_plugin [\<lparr>Command = ''GET'', Sync = False\<rparr>, \<lparr>Command = ''SET'', Sync = True\<rparr>,
                                    \<lparr>Command = ''GET'', Sync = True\<rparr>] ''+second''\<rparr>
   \<and> LoadModules []
       (LoadCommands (const_plugin [\<lparr>Command = ''GET'', Sync = False\<rparr>] ''+second'')
          (LoadCommands (const_plugin [\<lparr>Command = ''get'', Sync = False\<rparr>] ''+first'') Map.empty))
       ''get''
     = Some \<lparr>SCommand = \<lparr>Command = ''get'', Sync = False\<rparr>,
              Plugin = const_plugin [\<lparr>Command = ''get'', Sync = False\<rparr>] ''+first''\<rparr>
   \<and> LoadModules []
       (LoadCommands (const_plugin [\<lparr>Command = ''GET'', Sync = False\<rparr>] ''+second'')
          (LoadCommands (const_plugin [\<lparr>Command = ''get'', Sync = False\<rparr>] ''+first'') Map.empty))
       ''GET''
     = Some \<lparr>SCommand = \<lparr>Command = ''GET'', Sync = False\<rparr>,
              Plugin = const_plugin [\<lparr>Command = ''GET'', Sync = False\<rparr>] ''+second''\<rparr>"
proof -
  let ?p1 = "const_plugin [\<lparr>Command = ''GET'', Sync = False\<rparr>] ''+first''"
  let ?p2 = "const_plugin [\<lparr>Command = ''GET'', Sync = False\<rparr>, \<lparr>Command = ''SET'', Sync = True\<rparr>,
                           \<lparr>Command = ''GET'', Sync = True\<rparr>] ''+second''"
  let ?pp = "const_plugin [\<lparr>Command = ''PING'', Sync = False\<rparr>] ''+PONG''"
  let ?c1 = "\<lparr>Command = ''GET'', Sync = False\<rparr>"
  let ?c2 = "\<lparr>Command = ''GET'', Sync = True\<rparr>"
  let ?r = "LoadModules [?pp] (LoadCommands ?p2 (LoadCommands ?p1 Map.empty))"
  have h1: "Commands ?p1 = [] @ ?c1 # []" and h2: "\<forall>c\<in>set []. Command c \<noteq> Command ?c1"
    and h3: "Commands ?p2 = [\<lparr>Command = ''GET'', Sync = False\<rparr>, \<lparr>Command = ''SET'', Sync = True\<rparr>] @ ?c2 # []"
    and h4: "\<forall>c\<in>set []. Command c \<noteq> Command ?c2"
    and h5: "\<forall>p\<in>set [?pp]. \<forall>c\<in>set (Commands p). Command c \<noteq> Command ?c2"
    by (simp_all add: const_plugin_def)
  have d: "dom ?r = {''PING'', ''SET'', ''GET''}"
    by (auto simp: LoadModules_def LoadCommands_def const_plugin_def)
  have o: "range_order [''PING'', ''SET'', ''GET''] ?r"
    unfolding range_order_def d by simp
  have e: "EqualFold no_unicode (Command ?c2) ''get''"
    by (simp add: more_EqualFold_examples del: EqualFold.simps)
  have u: "\<forall>k\<in>dom ?r. k \<noteq> Command ?c2 \<longrightarrow> \<not> EqualFold no_unicode k ''get''"
    unfolding d by (simp add: more_EqualFold_examples del: EqualFold.simps)
  have a: "getCommand no_unicode [''PING'', ''SET'', ''GET''] ?r ''get''
             = Inr \<lparr>SCommand = ?c2, Plugin = ?p2\<rparr>"
    using exact_name_registration_overrides
      [OF h1 h2 h3 h4 h5, of Map.empty "[''PING'', ''SET'', ''GET'']" no_unicode "''get''"] o e u
    by blast
  let ?q1 = "const_plugin [\<lparr>Command = ''get'', Sync = False\<rparr>] ''+first''"
  let ?q2 = "const_plugin [\<lparr>Command = ''GET'', Sync = False\<rparr>] ''+second''"
  let ?d1 = "\<lparr>Command = ''get'', Sync = False\<rparr>"
  let ?d2 = "\<lparr>Command = ''GET'', Sync = False\<rparr>"
  have g1: "Commands ?q1 = [] @ ?d1 # []" and g2: "\<forall>c\<in>set []. Command c \<noteq> Command ?d1"
    and g3: "Commands ?q2 = [] @ ?d2 # []" and g4: "\<forall>c\<in>set []. Command c \<noteq> Command ?d2"
    and g5: "\<forall>p\<in>set []. \<forall>c\<in>set (Commands p). Command c \<noteq> Command ?d2"
    and g6: "(\<forall>c\<in>set (Commands ?q2). Command c \<noteq> Command ?d1)
             \<and> (\<forall>p\<in>set []. \<forall>c\<in>set (Commands p). Command c \<noteq> Command ?d1)"
    by (simp_all add: const_plugin_def)
  from exact_name_registration_overrides [OF g1 g2 g3 g4 g5, of Map.empty] g6
  have b: "LoadModules [] (LoadCommands ?q2 (LoadCommands ?q1 Map.empty)) ''get''
             = Some \<lparr>SCommand = ?d1, Plugin = ?q1\<rparr>"
      and c: "LoadModules [] (LoadCommands ?q2 (LoadCommands ?q1 Map.empty)) ''GET''
             = Some \<lparr>SCommand = ?d2, Plugin = ?q2\<rparr>"
    by simp_all
  from o e a b c show ?thesis by simp
qed

theorem lookup_case_insensitive_witness:
  "range_order [''GET'']
        [''GET'' \<mapsto> \<lparr>SCommand = \<lparr>Command = ''GET'', Sync = False\<rparr>,
                       Plugin = const_plugin [\<lparr>Command = ''GET'', Sync = False\<rparr>] ''+OK''\<rparr>]
   \<and> same_result
        (getCommand no_unicode [''GET'']
           [''GET'' \<mapsto> \<lparr>SCommand = \<lparr>Command = ''GET'', Sync = False\<rparr>,
                       Plugin = const_plugin [\<lparr>Command = ''GET'', Sync = False\<rparr>] ''+OK''\<rparr>]
           (upper ''Get''))
        (getCommand no_unicode [''GET'']
           [''GET'' \<mapsto> \<lparr>SCommand = \<lparr>Command = ''GET'', Sync = False\<rparr>,
                       Plugin = const_plugin [\<lparr>Command = ''GET'', Sync = False\<rparr>] ''+OK''\<rparr>]
           (lower ''Get''))
   \<and> getCommand no_unicode [''GET'']
           [''GET'' \<mapsto> \<lparr>SCommand = \<lparr>Command = ''GET'', Sync = False\<rparr>,
                       Plugin = const_plugin [\<lparr>Command = ''GET'', Sync = False\<rparr>] ''+OK''\<rparr>]
           (lower ''Get'')
       = Inr \<lparr>SCommand = \<lparr>Command = ''GET'', Sync = False\<rparr>,
               Plugin = const_plugin [\<lparr>Command = ''GET'', Sync = False\<rparr>] ''+OK''\<rparr>"
proof -
  have f: "folds_ascii_case no_unicode"
    by (simp add: folds_ascii_case_def no_unicode_def)
  have d: "fold_distinct no_unicode
        [''GET'' \<mapsto> \<lparr>SCommand = \<lparr>Command = ''GET'', Sync = False\<rparr>,
                       Plugin = const_plugin [\<lparr>Command = ''GET'', Sync = False\<rparr>] ''+OK''\<rparr>]"
    by (simp add: fold_distinct_def)
  have r: "range_order [''GET'']
        [''GET'' \<mapsto> \<lparr>SCommand = \<lparr>Command = ''GET'', Sync = False\<rparr>,
                       Plugin = const_plugin [\<lparr>Command = ''GET'', Sync = False\<rparr>] ''+OK''\<rparr>]"
    by (simp add: range_order_def)
  have e: "getCommand no_unicode [''GET'']
           [''GET'' \<mapsto> \<lparr>SCommand = \<lparr>Command = ''GET'', Sync = False\<rparr>,
                       Plugin = const_plugin [\<lparr>Command = ''GET'', Sync = False\<rparr>] ''+OK''\<rparr>]
           (lower ''Get'')
       = Inr \<lparr>SCommand = \<lparr>Command = ''GET'', Sync = False\<rparr>,
               Plugin = const_plugin [\<lparr>Command = ''GET'', Sync = False\<rparr>] ''+OK''\<rparr>"
    by (simp add: getCommand_def EqualFold_examples del: EqualFold.simps)
  show ?thesis
    using lookup_case_insensitive [OF f, of "[''GET'']" _ "''Get''" "[''GET'']" "[''GET'']"] d r e
    by blast
qed

text \<open>
  Claim C3 as stated fails on a registry that holds both \<open>get\<close> and \<open>GET\<close>: the lookup of
  the upper-case spelling, visiting \<open>get\<close> first, and the lookup of the lower-case
  spelling, visiting \<open>GET\<close> first, return different reg.
\<close>

theorem lookup_independent_orders_counterexample:
  "range_order [''get'', ''GET'']
     (LoadCommands (const_plugin [\<lparr>Command = ''GET'', Sync = False\<rparr>] ''+second'')
        (LoadCommands (const_plugin [\<lparr>Command = ''get'', Sync = False\<rparr>] ''+first'') Map.empty))
   \<and> range_order [''GET'', ''get'']
     (LoadCommands (const_plugin [\<lparr>Command = ''GET'', Sync = False\<rparr>] ''+second'')
        (LoadCommands (const_plugin [\<lparr>Command = ''get'', Sync = False\<rparr>] ''+first'') Map.empty))
   \<and> getCommand no_unicode [''get'', ''GET'']
     (LoadCommands (const_plugin [\<lparr>Command = ''GET'', Sync = False\<rparr>] ''+second'')
        (LoadCommands (const_plugin [\<lparr>Command = ''get'', Sync = False\<rparr>] ''+first'') Map.empty))
     (upper ''get'')
       = Inr \<lparr>SCommand = \<lparr>Command = ''get'', Sync = False\<rparr>,
               Plugin = const_plugin [\<lparr>Command = ''get'', Sync = False\<rparr>] ''+first''\<rparr>
   \<and> getCommand no_unicode [''GET'', ''get'']
     (LoadCommands (const_plugin [\<lparr>Command = ''GET'', Sync = False\<rparr>] ''+second'')
        (LoadCommands (const_plugin [\<lparr>Command = ''get'', Sync = False\<rparr>] ''+first'') Map.empty))
     (lower ''get'')
       = Inr \<lparr>SCommand = \<lparr>Command = ''GET'', Sync = False\<rparr>,
               Plugin = const_plugin [\<lparr>Command = ''GET'', Sync = False\<rparr>] ''+second''\<rparr>
   \<and> \<not> same_result
       (getCommand no_unicode [''get'', ''GET'']
          (LoadCommands (const_plugin [\<lparr>Command = ''GET'', Sync = False\<rparr>] ''+second'')
        (LoadCommands (const_plugin [\<lparr>Command = ''get'', Sync = False\<rparr>] ''+first'') Map.empty))
          (upper ''get''))
       (getCommand no_unicode [''GET'', ''get'']
          (LoadCommands (const_plugin [\<lparr>Command = ''GET'', Sync = False\<rparr>] ''+second'')
        (LoadCommands (const_plugin [\<lparr>Command = ''get'', Sync = False\<rparr>] ''+first'') Map.empty))
          (lower ''get''))"
  by (simp add: range_order_def LoadCommands_def const_plugin_def getCommand_def
        EqualFold_examples insert_commute del: EqualFold.simps)

section \<open>Theorems: dispatcher\<close>



text \<open>
  Claim C4.  A command that decodes, is found and is authorized, whose \<open>synchronize\<close> flag
  is set, on a node that is in a cluster and is not the leader: the only thing the
  dispatcher does is to write the not-leader error line, which, like every error line
  of the dispatcher, is followed by one more line feed.  No handler is called and
  nothing is submitted to the log.
\<close>

theorem follower_rejects_sync_command:
  assumes "Decode env message = Inr cmd" and "cmd \<noteq> []"
      and "getCommand (unicodeFold env) (lookup_order env) (commands env) (hd cmd) = Inr command"
      and "AuthorizeConnection env cmd (SCommand command) (GetSubCommand env command cmd) = None"
      and "synchronize env command cmd"
      and "IsInCluster (config env)"
      and "\<not> isRaftLeader env"
  shows "handleMessage env message = [Reply NotLeader]
       \<and> wire NotLeader = ''-Error not cluster leader, cannot carry out command'' @ [CR, LF] @ [LF]"
proof -
  from assms(2) obtain c0 args where c: "cmd = c0 # args" by (cases cmd) auto
  have "handleSynced env cmd = [Reply NotLeader]"
    using assms(7) by (simp add: handleSynced_def json_Marshal_def)
  then show ?thesis
    using assms(1,3-6) c by (simp add: handleMessage_def)
qed


lemma handleMessage_authorized:
  assumes "Decode env message = Inr cmd" and "cmd \<noteq> []"
      and "getCommand (unicodeFold env) (lookup_order env) (commands env) (hd cmd) = Inr command"
      and "AuthorizeConnection env cmd (SCommand command) (GetSubCommand env command cmd) = None"
  shows "handleMessage env message =
           (if \<not> IsInCluster (config env) \<or> \<not> synchronize env command cmd then
              (case handlePluginCommand env cmd of
                 (Returned (Inl err), effs) \<Rightarrow> effs @ [Reply (HandlerError err)]
               | (Returned (Inr res), effs) \<Rightarrow> effs @ [Reply (HandlerResponse res)]
               | (_, effs) \<Rightarrow> effs)
            else handleSynced env cmd)"
proof -
  from assms(2) obtain c0 args where "cmd = c0 # args" by (cases cmd) auto
  with assms(1,3,4) show ?thesis by (simp add: handleMessage_def)
qed

lemma handlePluginCommand_found:
  assumes "cmd \<noteq> []"
      and "getCommand (unicodeFold env) (plugin_lookup_order env) (commands env) (hd cmd) = Inr command"
  shows "handlePluginCommand env cmd = (Returned (HandleCommand (Plugin command) cmd), [Invoke command cmd])"
proof -
  from assms(1) obtain c0 args where "cmd = c0 # args" by (cases cmd) auto
  with assms(2) show ?thesis by (simp add: handlePluginCommand_def)
qed

lemma handlePluginCommand_not_found:
  assumes "cmd \<noteq> []"
      and "getCommand (unicodeFold env) (plugin_lookup_order env) (commands env) (hd cmd) = Inl err"
  shows "handlePluginCommand env cmd = (Returned (Inl err), [])"
proof -
  from assms(1) obtain c0 args where "cmd = c0 # args" by (cases cmd) auto
  with assms(2) show ?thesis by (simp add: handlePluginCommand_def)
qed

lemma handleSynced_eq:
  "handleSynced env cmd =
     (if isRaftLeader env then
        [Submit (encode env \<lparr>ServerID = ctxServerID env, ConnectionID = ctxConnectionID env, CMD = cmd\<rparr>),
         Reply (case raftApply env
                       (encode env \<lparr>ServerID = ctxServerID env, ConnectionID = ctxConnectionID env,
                                    CMD = cmd\<rparr>) of
                  FutureError err \<Rightarrow> ProposalError err
                | FutureResponse None \<Rightarrow> Unprocessable (showZeroResponse env)
                | FutureResponse (Some r) \<Rightarrow>
                    (case Error r of Some err \<Rightarrow> ApplyError err | None \<Rightarrow> ApplyOk (Response r)))]
      else [Reply NotLeader])"
  by (simp add: handleSynced_def json_Marshal_def split: future.splits option.splits)



lemma written_early:
  "Decode env message = Inl err \<Longrightarrow>
     written (handleMessage env message) = [error_line (''Error '' @ err)]"
  "Decode env message = Inr cmd \<Longrightarrow> cmd \<noteq> [] \<Longrightarrow>
   getCommand (unicodeFold env) (lookup_order env) (commands env) (hd cmd) = Inl err \<Longrightarrow>
     written (handleMessage env message) = [error_line err]"
  "Decode env message = Inr cmd \<Longrightarrow> cmd \<noteq> [] \<Longrightarrow>
   getCommand (unicodeFold env) (lookup_order env) (commands env) (hd cmd) = Inr command \<Longrightarrow>
   AuthorizeConnection env cmd (SCommand command) (GetSubCommand env command cmd) = Some err \<Longrightarrow>
     written (handleMessage env message) = [error_line err]"
  by (cases cmd; simp add: handleMessage_def error_line_def)+

lemma written_local:
  assumes "Decode env message = Inr cmd" and "cmd \<noteq> []"
      and "getCommand (unicodeFold env) (lookup_order env) (commands env) (hd cmd) = Inr command"
      and "AuthorizeConnection env cmd (SCommand command) (GetSubCommand env command cmd) = None"
      and "\<not> IsInCluster (config env) \<or> \<not> synchronize env command cmd"
  shows "getCommand (unicodeFold env) (plugin_lookup_order env) (commands env) (hd cmd) = Inl err \<Longrightarrow>
           written (handleMessage env message) = [error_line err]"
    and "getCommand (unicodeFold env) (plugin_lookup_order env) (commands env) (hd cmd) = Inr command' \<Longrightarrow>
         HandleCommand (Plugin command') cmd = Inl err \<Longrightarrow>
           written (handleMessage env message) = [error_line err]"
    and "getCommand (unicodeFold env) (plugin_lookup_order env) (commands env) (hd cmd) = Inr command' \<Longrightarrow>
         HandleCommand (Plugin command') cmd = Inr res \<Longrightarrow>
           written (handleMessage env message) = [res]"
  using handleMessage_authorized[OF assms(1-4)] assms(5)
  by (simp_all add: handlePluginCommand_found[OF assms(2)] handlePluginCommand_not_found[OF assms(2)]
        error_line_def)

lemma written_synced:
  assumes "Decode env message = Inr cmd" and "cmd \<noteq> []"
      and "getCommand (unicodeFold env) (lookup_order env) (commands env) (hd cmd) = Inr command"
      and "AuthorizeConnection env cmd (SCommand command) (GetSubCommand env command cmd) = None"
      and "IsInCluster (config env) \<and> synchronize env command cmd"
  shows "\<not> isRaftLeader env \<Longrightarrow>
           written (handleMessage env message)
             = [error_line ''Error not cluster leader, cannot carry out command'']"
    and "isRaftLeader env \<Longrightarrow>
         raftApply env (encode env \<lparr>ServerID = ctxServerID env, ConnectionID = ctxConnectionID env,
                                    CMD = cmd\<rparr>) = FutureError err \<Longrightarrow>
           written (handleMessage env message) = [error_line (''Error '' @ err)]"
    and "isRaftLeader env \<Longrightarrow>
         raftApply env (encode env \<lparr>ServerID = ctxServerID env, ConnectionID = ctxConnectionID env,
                                    CMD = cmd\<rparr>) = FutureResponse None \<Longrightarrow>
           written (handleMessage env message)
             = [error_line (''Error unprocessable entity '' @ showZeroResponse env)]"
    and "isRaftLeader env \<Longrightarrow>
         raftApply env (encode env \<lparr>ServerID = ctxServerID env, ConnectionID = ctxConnectionID env,
                                    CMD = cmd\<rparr>) = FutureResponse (Some r) \<Longrightarrow>
         Error r = Some err \<Longrightarrow>
           written (handleMessage env message) = [error_line (''Error '' @ err)]"
    and "isRaftLeader env \<Longrightarrow>
         raftApply env (encode env \<lparr>ServerID = ctxServerID env, ConnectionID = ctxConnectionID env,
                                    CMD = cmd\<rparr>) = FutureResponse (Some r) \<Longrightarrow>
         Error r = None \<Longrightarrow>
           written (handleMessage env message) = [Response r]"
  using handleMessage_authorized[OF assms(1-4)] assms(5)
  by (simp_all add: handleSynced_eq error_line_def)


lemma written_append: "written (xs @ ys) = written xs @ written ys"
  by (induction xs rule: written.induct) simp_all

text \<open>
  Claim C9.  What the dispatcher writes for a message, path by path.  Where the source
  holds an error (the decoder's, the one of either lookup, the denial, the handler's,
  that of the proposal, an unprocessable response, the error of the apply path, not
  leader) it writes one error line: \<open>-\<close>, the text, carriage return, line feed and one
  more line feed.  Where the handler succeeds, here or through the log, it writes the
  bytes the handler returned and nothing else.  The statement for a marshal failure
  writes an error line too.  Everything written on a connection is written by one of
  these rounds.
\<close>

theorem error_replies_end_with_extra_newline:
  "(Decode env message = Inl err \<longrightarrow> written (handleMessage env message) = [error_line (''Error '' @ err)])
 \<and> (Decode env message = Inr cmd \<and> cmd \<noteq> [] \<longrightarrow>
      (getCommand (unicodeFold env) (lookup_order env) (commands env) (hd cmd) = Inl err
         \<longrightarrow> written (handleMessage env message) = [error_line err])
    \<and> (getCommand (unicodeFold env) (lookup_order env) (commands env) (hd cmd) = Inr command \<longrightarrow>
         (AuthorizeConnection env cmd (SCommand command) (GetSubCommand env command cmd) = Some err
            \<longrightarrow> written (handleMessage env message) = [error_line err])
       \<and> (AuthorizeConnection env cmd (SCommand command) (GetSubCommand env command cmd) = None \<longrightarrow>
            (\<not> IsInCluster (config env) \<or> \<not> synchronize env command cmd \<longrightarrow>
               (getCommand (unicodeFold env) (plugin_lookup_order env) (commands env) (hd cmd) = Inl err
                  \<longrightarrow> written (handleMessage env message) = [error_line err])
             \<and> (getCommand (unicodeFold env) (plugin_lookup_order env) (commands env) (hd cmd) = Inr command' \<longrightarrow>
                  (HandleCommand (Plugin command') cmd = Inl err
                     \<longrightarrow> written (handleMessage env message) = [error_line err])
                \<and> (HandleCommand (Plugin command') cmd = Inr res
                     \<longrightarrow> written (handleMessage env message) = [res])))
          \<and> (IsInCluster (config env) \<and> synchronize env command cmd \<longrightarrow>
               (\<not> isRaftLeader env \<longrightarrow>
                  written (handleMessage env message)
                    = [error_line ''Error not cluster leader, cannot carry out command''])
             \<and> (isRaftLeader env \<longrightarrow>
                  (raftApply env (encode env \<lparr>ServerID = ctxServerID env, ConnectionID = ctxConnectionID env,
                                   CMD = cmd\<rparr>) = FutureError err
                     \<longrightarrow> written (handleMessage env message) = [error_line (''Error '' @ err)])
                \<and> (raftApply env (encode env \<lparr>ServerID = ctxServerID env, ConnectionID = ctxConnectionID env,
                                   CMD = cmd\<rparr>) = FutureResponse None
                     \<longrightarrow> written (handleMessage env message)
                          = [error_line (''Error unprocessable entity '' @ showZeroResponse env)])
                \<and> (raftApply env (encode env \<lparr>ServerID = ctxServerID env, ConnectionID = ctxConnectionID env,
                                   CMD = cmd\<rparr>) = FutureResponse (Some r) \<longrightarrow>
                     (Error r = Some err
                        \<longrightarrow> written (handleMessage env message) = [error_line (''Error '' @ err)])
                   \<and> (Error r = None \<longrightarrow> written (handleMessage env message) = [Response r])))))))
 \<and> wire MarshalError = error_line ''Error could not parse request''
 \<and> error_line text = CHR ''-'' # text @ [CR, LF] @ [LF]
 \<and> written (handleConnection ((Message message, env) # rest))
     = written (handleMessage env message)
       @ (if Fault \<in> set (handleMessage env message) then []
          else written (handleConnection rest))"
proof -
  have loop: "written (handleConnection ((Message message, env) # rest))
     = written (handleMessage env message)
       @ (if Fault \<in> set (handleMessage env message) then []
          else written (handleConnection rest))"
    by (simp add: Let_def written_append)
  show ?thesis
    apply (intro conjI impI)
                   apply (erule written_early(1))
                  apply (erule conjE, erule (2) written_early(2))
                 apply (erule conjE, erule (3) written_early(3))
                apply (erule conjE, erule (5) written_local(1))
               apply (erule conjE, erule (6) written_local(2))
              apply (erule conjE, erule (6) written_local(3))
             apply (erule conjE, erule (5) written_synced(1))
            apply (erule conjE, erule (6) written_synced(2))
           apply (erule conjE, erule (6) written_synced(3))
          apply (erule conjE, erule (7) written_synced(4))
         apply (erule conjE, erule (7) written_synced(5))
        apply (simp add: error_line_def)
       apply (simp add: error_line_def)
      apply (rule loop)
    done
qed


text \<open>Evaluations used by the examples below.\<close>

lemma example_registry_eq:
  "example_registry = [''SET'' \<mapsto> example_SET, ''GET'' \<mapsto> example_GET]"
  by (simp add: example_registry_def LoadCommands_def example_SET_def example_GET_def const_plugin_def)

lemma example_lookups:
  "getCommand no_unicode [''SET'', ''GET''] example_registry ''SET'' = Inr example_SET"
  "getCommand no_unicode [''SET'', ''GET''] example_registry ''GET'' = Inr example_GET"
  "getCommand no_unicode [''GET'', ''SET''] example_registry ''SET'' = Inr example_SET"
  "getCommand no_unicode [''GET'', ''SET''] example_registry ''GET'' = Inr example_GET"
  "getCommand no_unicode [''SET'', ''GET''] example_registry ''PING'' = Inl ''command PING not supported''"
  "range_order [''SET'', ''GET''] example_registry"
  "range_order [''GET'', ''SET''] example_registry"
  by (simp_all add: example_registry_eq getCommand_def RuneSelf_def range_order_def insert_commute)

lemma example_env_sel:
  "config (example_env c l) = \<lparr>BootstrapCluster = c, JoinAddr = []\<rparr>"
  "commands (example_env c l) = example_registry"
  "unicodeFold (example_env c l) = no_unicode"
  "lookup_order (example_env c l) = [''SET'', ''GET'']"
  "plugin_lookup_order (example_env c l) = [''GET'', ''SET'']"
  "Decode (example_env c l) m = (if m = [] then Inl ''empty message'' else Inr (tokens [] m))"
  "GetSubCommand (example_env c l) command cmd = None"
  "AuthorizeConnection (example_env c l) cmd cc sub = None"
  "isRaftLeader (example_env c l) = l"
  by (simp_all add: example_env_def)

lemma example_tokens:
  "tokens [] ''SET foo 1'' = [''SET'', ''foo'', ''1'']"
  "tokens [] ''GET foo'' = [''GET'', ''foo'']"
  "tokens [] ''PING'' = [''PING'']"
  by simp_all

theorem follower_rejects_sync_command_witness:
  "Decode (example_env True False) ''SET foo 1'' = Inr [''SET'', ''foo'', ''1'']
   \<and> getCommand (unicodeFold (example_env True False)) (lookup_order (example_env True False))
        (commands (example_env True False)) (hd [''SET'', ''foo'', ''1'']) = Inr example_SET
   \<and> AuthorizeConnection (example_env True False) [''SET'', ''foo'', ''1''] (SCommand example_SET)
        (GetSubCommand (example_env True False) example_SET [''SET'', ''foo'', ''1'']) = None
   \<and> synchronize (example_env True False) example_SET [''SET'', ''foo'', ''1'']
   \<and> IsInCluster (config (example_env True False))
   \<and> \<not> isRaftLeader (example_env True False)
   \<and> handleMessage (example_env True False) ''SET foo 1'' = [Reply NotLeader]"
proof -
  have h1: "Decode (example_env True False) ''SET foo 1'' = Inr [''SET'', ''foo'', ''1'']"
    by (simp add: example_env_sel)
  have h2: "[''SET'', ''foo'', ''1''] \<noteq> []" by simp
  have h3: "getCommand (unicodeFold (example_env True False)) (lookup_order (example_env True False))
        (commands (example_env True False)) (hd [''SET'', ''foo'', ''1'']) = Inr example_SET"
    by (simp add: example_env_sel example_lookups)
  have h4: "AuthorizeConnection (example_env True False) [''SET'', ''foo'', ''1''] (SCommand example_SET)
        (GetSubCommand (example_env True False) example_SET [''SET'', ''foo'', ''1'']) = None"
    by (simp add: example_env_sel)
  have h5: "synchronize (example_env True False) example_SET [''SET'', ''foo'', ''1'']"
    by (simp add: synchronize_def example_env_sel example_SET_def)
  have h6: "IsInCluster (config (example_env True False))"
    by (simp add: IsInCluster_def example_env_sel)
  have h7: "\<not> isRaftLeader (example_env True False)"
    by (simp add: example_env_sel)
  show ?thesis
    using follower_rejects_sync_command [OF h1 h2 h3 h4 h5 h6 h7] h1 h3 h4 h5 h6 h7 by blast
qed

lemma example_env_more:
  "encode (example_env c l) req = concat (CMD req)"
  "raftApply (example_env c l) b = FutureResponse (Some \<lparr>Error = None, Response = ''+OK''\<rparr>)"
  "ctxServerID (example_env c l) = ''1''" "ctxConnectionID (example_env c l) = ''1-1''"
  by (simp_all add: example_env_def)






theorem error_replies_end_with_extra_newline_witness:
  "written (handleMessage (example_env False False) ''PING'')
     = [''-command PING not supported'' @ [CR, LF] @ [LF]]
   \<and> written (handleMessage (example_env True True) ''GET foo'') = [''$1'']
   \<and> written (handleMessage (example_env True False) ''SET foo 1'')
     = [''-Error not cluster leader, cannot carry out command'' @ [CR, LF] @ [LF]]
   \<and> written (handleMessage (example_env True True) ''SET foo 1'') = [''+OK'']"
proof -
  note T = error_replies_end_with_extra_newline [THEN conjunct2, THEN conjunct1, THEN mp]
  have p1: "Decode (example_env False False) ''PING'' = Inr [''PING''] \<and> [''PING''] \<noteq> []"
    by (simp add: example_env_sel)
  have p2: "getCommand (unicodeFold (example_env False False)) (lookup_order (example_env False False))
             (commands (example_env False False)) (hd [''PING'']) = Inl ''command PING not supported''"
    by (simp add: example_env_sel example_lookups)
  have a: "written (handleMessage (example_env False False) ''PING'')
             = [error_line ''command PING not supported'']"
    by (rule T [OF p1, THEN conjunct1, THEN mp, OF p2])
  have g1: "Decode (example_env True True) ''GET foo'' = Inr [''GET'', ''foo''] \<and> [''GET'', ''foo''] \<noteq> []"
    by (simp add: example_env_sel)
  have g2: "getCommand (unicodeFold (example_env True True)) (lookup_order (example_env True True))
             (commands (example_env True True)) (hd [''GET'', ''foo'']) = Inr example_GET"
    by (simp add: example_env_sel example_lookups)
  have g3: "AuthorizeConnection (example_env True True) [''GET'', ''foo''] (SCommand example_GET)
             (GetSubCommand (example_env True True) example_GET [''GET'', ''foo'']) = None"
    by (simp add: example_env_sel)
  have g4: "\<not> IsInCluster (config (example_env True True))
             \<or> \<not> synchronize (example_env True True) example_GET [''GET'', ''foo'']"
    by (simp add: example_env_sel synchronize_def example_GET_def)
  have g5: "getCommand (unicodeFold (example_env True True)) (plugin_lookup_order (example_env True True))
             (commands (example_env True True)) (hd [''GET'', ''foo'']) = Inr example_GET"
    by (simp add: example_env_sel example_lookups)
  have g6: "HandleCommand (Plugin example_GET) [''GET'', ''foo''] = Inr ''$1''"
    by (simp add: example_GET_def const_plugin_def)
  have b: "written (handleMessage (example_env True True) ''GET foo'') = [''$1'']"
    by (rule T [OF g1, THEN conjunct2, THEN mp, OF g2, THEN conjunct2, THEN mp, OF g3,
                THEN conjunct1, THEN mp, OF g4, THEN conjunct2, THEN mp, OF g5,
                THEN conjunct2, THEN mp, OF g6])
  have s1: "Decode (example_env True l) ''SET foo 1'' = Inr [''SET'', ''foo'', ''1'']
             \<and> [''SET'', ''foo'', ''1''] \<noteq> []" for l
    by (simp add: example_env_sel)
  have s2: "getCommand (unicodeFold (example_env True l)) (lookup_order (example_env True l))
             (commands (example_env True l)) (hd [''SET'', ''foo'', ''1'']) = Inr example_SET" for l
    by (simp add: example_env_sel example_lookups)
  have s3: "AuthorizeConnection (example_env True l) [''SET'', ''foo'', ''1''] (SCommand example_SET)
             (GetSubCommand (example_env True l) example_SET [''SET'', ''foo'', ''1'']) = None" for l
    by (simp add: example_env_sel)
  have s4: "IsInCluster (config (example_env True l))
             \<and> synchronize (example_env True l) example_SET [''SET'', ''foo'', ''1'']" for l
    by (simp add: example_env_sel synchronize_def example_SET_def IsInCluster_def)
  note S = T [OF s1, THEN conjunct2, THEN mp, OF s2, THEN conjunct2, THEN mp, OF s3,
              THEN conjunct2, THEN mp, OF s4]
  have n: "\<not> isRaftLeader (example_env True False)" by (simp add: example_env_sel)
  have c: "written (handleMessage (example_env True False) ''SET foo 1'')
             = [error_line ''Error not cluster leader, cannot carry out command'']"
    by (rule S [THEN conjunct1, THEN mp, OF n])
  have l1: "isRaftLeader (example_env True True)" by (simp add: example_env_sel)
  have l2: "raftApply (example_env True True)
             (encode (example_env True True)
                \<lparr>ServerID = ctxServerID (example_env True True),
                   ConnectionID = ctxConnectionID (example_env True True),
                   CMD = [''SET'', ''foo'', ''1'']\<rparr>)
             = FutureResponse (Some \<lparr>Error = None, Response = ''+OK''\<rparr>)"
    by (simp add: example_env_more)
  have l3: "Error \<lparr>Error = None, Response = ''+OK''\<rparr> = None" by simp
  have d: "written (handleMessage (example_env True True) ''SET foo 1'')
             = [Response \<lparr>Error = None, Response = ''+OK''\<rparr>]"
    by (rule S [THEN conjunct2, THEN mp, OF l1, THEN conjunct2, THEN conjunct2, THEN mp, OF l2,
                THEN conjunct2, THEN mp, OF l3])
  from a b c d show ?thesis by (simp add: error_line_def)
qed


section \<open>Theorems: linked list\<close>


lemma path_None_unique:
  "path h p xs None \<Longrightarrow> path h p ys None \<Longrightarrow> xs = ys"
proof (induction xs arbitrary: p ys)
  case Nil
  then show ?case by (cases ys) auto
next
  case (Cons a xs)
  then show ?case by (cases ys) auto
qed

lemma path_append:
  "path h p (xs @ ys) q = (\<exists>r. path h p xs r \<and> path h r ys q)"
  by (induction xs arbitrary: p) auto

lemma path_None_distinct: "path h p as None \<Longrightarrow> distinct as"
proof (induction as arbitrary: p)
  case Nil
  show ?case by simp
next
  case (Cons a as)
  from Cons.prems have tl: "path h (node_next (h ! a)) as None" by simp
  have "a \<notin> set as"
  proof
    assume "a \<in> set as"
    then obtain bs cs where s: "as = bs @ a # cs" by (auto simp: in_set_conv_decomp)
    with tl obtain r where "path h r (a # cs) None" by (auto simp: path_append)
    then have "path h (node_next (h ! a)) cs None" by simp
    with tl have "as = cs" by (rule path_None_unique)
    with s show False by simp
  qed
  with Cons.IH[OF tl] show ?case by simp
qed

lemma Iter_loop_linear_prefix:
  "\<not> ring l \<Longrightarrow> path h p as None \<Longrightarrow> j \<le> length as \<Longrightarrow>
     Iter_loop j h l p = (take j as, Running)"
proof (induction as arbitrary: p j)
  case Nil
  then show ?case by simp
next
  case (Cons a as)
  show ?case
  proof (cases j)
    case 0
    then show ?thesis by simp
  next
    case (Suc i)
    with Cons.prems have "Iter_loop i h l (node_next (h ! a)) = (take i as, Running)"
      by (intro Cons.IH) auto
    with Cons.prems Suc show ?thesis by simp
  qed
qed

lemma Iter_loop_linear_closed:
  "\<not> ring l \<Longrightarrow> path h p as None \<Longrightarrow>
     Iter_loop (Suc (length as) + k) h l p = (as, Returned ())"
proof (induction as arbitrary: p)
  case Nil
  then show ?case by simp
next
  case (Cons a as)
  then have "Iter_loop (Suc (length as) + k) h l (node_next (h ! a)) = (as, Returned ())"
    by (intro Cons.IH) auto
  with Cons.prems show ?case by simp
qed

lemma path_nth:
  "path h p as q \<Longrightarrow> j < length as \<Longrightarrow>
     as ! j < length h
   \<and> node_next (h ! (as ! j)) = (if Suc j < length as then Some (as ! Suc j) else q)"
proof (induction as arbitrary: p j)
  case Nil
  then show ?case by simp
next
  case (Cons a as)
  show ?case
  proof (cases j)
    case 0
    with Cons.prems show ?thesis by (cases as) auto
  next
    case (Suc i)
    with Cons.prems have "as ! i < length h
      \<and> node_next (h ! (as ! i)) = (if Suc i < length as then Some (as ! Suc i) else q)"
      by (intro Cons.IH) auto
    with Suc show ?thesis by simp
  qed
qed

lemma map_upt_Suc_shift: "map f [0..<Suc k] = f 0 # map (\<lambda>i. f (Suc i)) [0..<k]"
  by (simp only: upt_conv_Cons[of 0 "Suc k"] map_Suc_upt[symmetric]) simp

lemma Iter_loop_cycle:
  assumes r: "ring l" and p: "path h (head l) as (head l)" and ne: "as \<noteq> []"
  shows "j < length as \<Longrightarrow>
     Iter_loop k h l (Some (as ! j))
       = (map (\<lambda>i. as ! ((j + i) mod length as)) [0..<k], Running)"
proof (induction k arbitrary: j)
  case 0
  show ?case by simp
next
  case (Suc k)
  let ?n = "length as"
  from ne p have hd: "head l = Some (as ! 0)" by (cases as) auto
  from path_nth[OF p Suc.prems] have v: "as ! j < length h"
    and nx: "node_next (h ! (as ! j)) = (if Suc j < ?n then Some (as ! Suc j) else head l)"
    by auto
  have nx': "node_next (h ! (as ! j)) = Some (as ! (Suc j mod ?n))"
  proof (cases "Suc j < ?n")
    case True
    then show ?thesis using nx by simp
  next
    case False
    with Suc.prems have "Suc j = ?n" by simp
    then show ?thesis using nx hd by simp
  qed
  have lt: "Suc j mod ?n < ?n"
    by (rule mod_less_divisor) (use Suc.prems in auto)
  have ih: "Iter_loop k h l (Some (as ! (Suc j mod ?n)))
       = (map (\<lambda>i. as ! ((Suc j mod ?n + i) mod ?n)) [0..<k], Running)"
    by (rule Suc.IH[OF lt])
  have m: "\<And>i. (Suc j mod ?n + i) mod ?n = (j + Suc i) mod ?n"
    by (simp add: mod_add_left_eq)
  have j0: "j mod ?n = j" using Suc.prems by simp
  show ?case
    unfolding map_upt_Suc_shift
    using v nx' ih by (simp add: m j0)
qed

lemma Iter_loop_single:
  assumes r: "ring l" and hd: "head l = Some a" and v: "a < length h"
      and nx: "node_next (h ! a) = None"
  shows "Iter_loop k h l (Some a) = (replicate k a, Running)"
  using assms by (induction k) auto

text \<open>
  Every list that \<open>Add\<close> builds from an empty one has one of the two shapes: it is
  \<open>built\<close>, which is a linear list over the nodes \<open>0, \<dots>, n - 1\<close> in linear mode and a ring
  over them in ring mode.
\<close>
lemma Adds_snoc:
  "Adds (vs @ [v]) st =
     (case Adds vs st of Returned st' \<Rightarrow> Add v st' | Panic \<Rightarrow> Panic | Running \<Rightarrow> Running)"
  by (induction vs arbitrary: st) (auto split: outcome.splits)

lemma Add_built: "Add v (built rg vs) = Returned (built rg (vs @ [v]))"
proof -
  consider "vs = []" | x where "vs = [x]" | "2 \<le> length vs"
    by (cases vs rule: list.exhaust; cases "tl vs") auto
  then show ?thesis
  proof cases
    case 1
    then show ?thesis by (simp add: Add_def built_def NewNode_def)
  next
    case 2
    then show ?thesis by (cases rg) (simp_all add: Add_def built_def NewNode_def)
  next
    case 3
    let ?n = "length vs"
    have t: "tail (snd (built rg vs)) = Some (?n - 1)" "head (snd (built rg vs)) = Some 0"
      using 3 by (auto simp: built_def)
    show ?thesis
      using 3
      apply (cases rg)
       apply (simp_all add: Add_def built_def NewNode_def)
       apply (auto intro!: nth_equalityI simp: nth_append nth_list_update)
      done
  qed
qed


lemma Adds_built: "Adds vs (NewLinkedList \<lparr>Ring = rg\<rparr>) = Returned (built rg vs)"
proof (induction vs rule: rev_induct)
  case Nil
  show ?case by (simp add: NewLinkedList_def built_def)
next
  case (snoc v vs)
  then show ?case by (simp add: Adds_snoc Add_built)
qed

lemma built_heap:
  "length (fst (built rg vs)) = length vs"
  "i < length vs \<Longrightarrow>
     node_next (fst (built rg vs) ! i)
       = (if Suc i < length vs then Some (Suc i)
          else if rg \<and> 2 \<le> length vs then Some 0 else None)"
  by (simp_all add: built_def)

lemma path_built:
  "i \<le> length vs \<Longrightarrow>
     path (fst (built rg vs)) (if i < length vs then Some i
                               else if rg \<and> 2 \<le> length vs then Some 0 else None)
       [i..<length vs] (if rg \<and> 2 \<le> length vs then Some 0 else None)"
proof (induction "length vs - i" arbitrary: i)
  case 0
  then show ?case by simp
next
  case (Suc d)
  then have lt: "i < length vs" and d: "d = length vs - Suc i" by auto
  have u: "[i..<length vs] = i # [Suc i..<length vs]"
    using lt by (rule upt_conv_Cons)
  have "path (fst (built rg vs))
          (if Suc i < length vs then Some (Suc i)
           else if rg \<and> 2 \<le> length vs then Some 0 else None)
          [Suc i..<length vs] (if rg \<and> 2 \<le> length vs then Some 0 else None)"
    using lt by (intro Suc.hyps(1)[OF d]) simp
  then show ?case
    unfolding u using lt by (simp add: built_heap del: upt_Suc)
qed

lemma built_sel:
  "head (snd (built rg vs)) = (if vs = [] then None else Some 0)"
  "ring (snd (built rg vs)) = rg"
  by (simp_all add: built_def)

lemma shape_unfold:
  "linear_list st as = (\<not> ring (snd st) \<and> path (fst st) (head (snd st)) as None)"
  "ring_list st as =
     (ring (snd st) \<and> as \<noteq> [] \<and>
      (path (fst st) (head (snd st)) as (head (snd st))
       \<or> (length as = 1 \<and> path (fst st) (head (snd st)) as None)))"
  by (cases st; simp add: linear_list_def ring_list_def)+

lemma built_linear_list: "linear_list (built False vs) [0..<length vs]"
proof -
  have "path (fst (built False vs)) (head (snd (built False vs))) [0..<length vs] None"
    using path_built[of 0 vs False] by (cases "vs = []") (simp_all add: built_sel)
  then show ?thesis
    by (simp add: shape_unfold built_sel)
qed

lemma built_ring_list: "vs \<noteq> [] \<Longrightarrow> ring_list (built True vs) [0..<length vs]"
proof -
  assume ne: "vs \<noteq> []"
  have h: "head (snd (built True vs)) = Some 0" using ne by (simp add: built_sel)
  have p: "path (fst (built True vs)) (Some 0) [0..<length vs]
             (if 2 \<le> length vs then Some 0 else None)"
    using path_built[of 0 vs True] ne by simp
  show ?thesis
  proof (cases "2 \<le> length vs")
    case True
    with p have "path (fst (built True vs)) (Some 0) [0..<length vs] (Some 0)" by simp
    with ne show ?thesis by (simp add: shape_unfold built_sel h)
  next
    case False
    with ne have one: "length vs = 1" by (cases vs) (auto simp: Suc_le_eq)
    from False p have "path (fst (built True vs)) (Some 0) [0..<length vs] None" by simp
    with ne one show ?thesis by (simp add: shape_unfold built_sel h)
  qed
qed

text \<open>
  Claim C8.  On a linear list, whose nodes from the head to nil are \<open>as\<close>, the iterator
  sends exactly these nodes, each once and in this order, and then closes the channel.
  On a ring that is not empty, whether a cycle through the head or the single node with
  a nil \<open>next\<close>, the iterator sends the nodes of the ring round after round and never
  leaves its loop: after any number of iterations it is still running.  The number of
  iterations is the first argument of \<open>Iter\<close>.
\<close>

theorem Iter_linear_finite_ring_endless:
  "(linear_list (h, l) as \<longrightarrow>
      distinct as
    \<and> (\<forall>j\<le>length as. Iter j (h, l) = (take j as, Running))
    \<and> (\<forall>k. Iter (Suc (length as) + k) (h, l) = (as, Returned ())))
 \<and> (ring_list (h, l) as \<longrightarrow>
      (\<forall>k. Iter k (h, l) = (map (\<lambda>i. as ! (i mod length as)) [0..<k], Running)))"
proof (intro conjI impI allI)
  assume "linear_list (h, l) as"
  then have r: "\<not> ring l" and p: "path h (head l) as None"
    by (simp_all add: linear_list_def)
  show "distinct as" using p by (rule path_None_distinct)
  show "Iter (Suc (length as) + k) (h, l) = (as, Returned ())" for k
    using Iter_loop_linear_closed[OF r p] by (simp add: Iter_def)
  show "j \<le> length as \<Longrightarrow> Iter j (h, l) = (take j as, Running)" for j
    using Iter_loop_linear_prefix[OF r p] by (simp add: Iter_def)
next
  fix k
  assume "ring_list (h, l) as"
  then have r: "ring l" and ne: "as \<noteq> []"
    and c: "path h (head l) as (head l) \<or> (length as = 1 \<and> path h (head l) as None)"
    by (simp_all add: ring_list_def)
  from c show "Iter k (h, l) = (map (\<lambda>i. as ! (i mod length as)) [0..<k], Running)"
  proof
    assume p: "path h (head l) as (head l)"
    from ne p have hd: "head l = Some (as ! 0)" by (cases as) auto
    from ne have "0 < length as" by simp
    from Iter_loop_cycle[OF r p ne this, of k] hd show ?thesis by (simp add: Iter_def)
  next
    assume s: "length as = 1 \<and> path h (head l) as None"
    then obtain a where a: "as = [a]" by (cases as) auto
    with s have f: "head l = Some a" "a < length h" "node_next (h ! a) = None" by auto
    have "map (\<lambda>i. a) [0..<k] = replicate k a"
      by (simp add: map_replicate_const)
    with Iter_loop_single[OF r f, of k] a f(1) show ?thesis
      by (simp add: Iter_def)
  qed
qed


text \<open>Lists built by \<open>Add\<close>, used by the example below.\<close>

lemma example_lists:
  "Adds [1, 2, 3 :: nat] (NewLinkedList \<lparr>Ring = False\<rparr>)
     = Returned ([\<lparr>node_value = 1, node_next = Some 1\<rparr>, \<lparr>node_value = 2, node_next = Some 2\<rparr>,
                  \<lparr>node_value = 3, node_next = None\<rparr>],
                 \<lparr>head = Some 0, tail = Some 2, ring = False\<rparr>)"
  "Adds [1, 2, 3 :: nat] (NewLinkedList \<lparr>Ring = True\<rparr>)
     = Returned ([\<lparr>node_value = 1, node_next = Some 1\<rparr>, \<lparr>node_value = 2, node_next = Some 2\<rparr>,
                  \<lparr>node_value = 3, node_next = Some 0\<rparr>],
                 \<lparr>head = Some 0, tail = Some 2, ring = True\<rparr>)"
  "Adds [1 :: nat] (NewLinkedList \<lparr>Ring = True\<rparr>)
     = Returned ([\<lparr>node_value = 1, node_next = None\<rparr>], \<lparr>head = Some 0, tail = None, ring = True\<rparr>)"
  by code_simp+

theorem Iter_linear_finite_ring_endless_witness:
  "Adds [1, 2, 3 :: nat] (NewLinkedList \<lparr>Ring = False\<rparr>)
     = Returned ([\<lparr>node_value = 1, node_next = Some 1\<rparr>, \<lparr>node_value = 2, node_next = Some 2\<rparr>,
                  \<lparr>node_value = 3, node_next = None\<rparr>],
                 \<lparr>head = Some 0, tail = Some 2, ring = False\<rparr>)
   \<and> Adds [1, 2, 3 :: nat] (NewLinkedList \<lparr>Ring = True\<rparr>)
     = Returned ([\<lparr>node_value = 1, node_next = Some 1\<rparr>, \<lparr>node_value = 2, node_next = Some 2\<rparr>,
                  \<lparr>node_value = 3, node_next = Some 0\<rparr>],
                 \<lparr>head = Some 0, tail = Some 2, ring = True\<rparr>)
   \<and> Adds [1 :: nat] (NewLinkedList \<lparr>Ring = True\<rparr>)
     = Returned ([\<lparr>node_value = 1, node_next = None\<rparr>], \<lparr>head = Some 0, tail = None, ring = True\<rparr>)
   \<and> linear_list ([\<lparr>node_value = 1 :: nat, node_next = Some 1\<rparr>, \<lparr>node_value = 2, node_next = Some 2\<rparr>,
                 \<lparr>node_value = 3, node_next = None\<rparr>],
                \<lparr>head = Some 0, tail = Some 2, ring = False\<rparr>) [0, 1, 2]
   \<and> Iter 4 ([\<lparr>node_value = 1 :: nat, node_next = Some 1\<rparr>, \<lparr>node_value = 2, node_next = Some 2\<rparr>,
               \<lparr>node_value = 3, node_next = None\<rparr>],
              \<lparr>head = Some 0, tail = Some 2, ring = False\<rparr>) = ([0, 1, 2], Returned ())
   \<and> ring_list ([\<lparr>node_value = 1 :: nat, node_next = Some 1\<rparr>, \<lparr>node_value = 2, node_next = Some 2\<rparr>,
                 \<lparr>node_value = 3, node_next = Some 0\<rparr>],
                \<lparr>head = Some 0, tail = Some 2, ring = True\<rparr>) [0, 1, 2]
   \<and> Iter 7 ([\<lparr>node_value = 1 :: nat, node_next = Some 1\<rparr>, \<lparr>node_value = 2, node_next = Some 2\<rparr>,
               \<lparr>node_value = 3, node_next = Some 0\<rparr>],
              \<lparr>head = Some 0, tail = Some 2, ring = True\<rparr>) = ([0, 1, 2, 0, 1, 2, 0], Running)
   \<and> ring_list ([\<lparr>node_value = 1 :: nat, node_next = None\<rparr>],
                \<lparr>head = Some 0, tail = None, ring = True\<rparr>) [0]
   \<and> Iter 4 ([\<lparr>node_value = 1 :: nat, node_next = None\<rparr>],
              \<lparr>head = Some 0, tail = None, ring = True\<rparr>) = ([0, 0, 0, 0], Running)"
proof -
  let ?hl = "[\<lparr>node_value = 1 :: nat, node_next = Some 1\<rparr>, \<lparr>node_value = 2, node_next = Some 2\<rparr>,
              \<lparr>node_value = 3, node_next = None\<rparr>]"
  let ?ll = "\<lparr>head = Some 0, tail = Some 2, ring = False\<rparr>"
  let ?hr = "[\<lparr>node_value = 1 :: nat, node_next = Some 1\<rparr>, \<lparr>node_value = 2, node_next = Some 2\<rparr>,
              \<lparr>node_value = 3, node_next = Some 0\<rparr>]"
  let ?lr = "\<lparr>head = Some 0, tail = Some 2, ring = True\<rparr>"
  let ?ho = "[\<lparr>node_value = 1 :: nat, node_next = None\<rparr>]"
  let ?lo = "\<lparr>head = Some 0, tail = None, ring = True\<rparr>"
  have l: "linear_list (?hl, ?ll) [0, 1, 2]" by (simp add: linear_list_def)
  have r: "ring_list (?hr, ?lr) [0, 1, 2]" by (simp add: ring_list_def)
  have o: "ring_list (?ho, ?lo) [0]" by (simp add: ring_list_def)
  have e: "map (\<lambda>i. [0, 1, 2] ! (i mod length [0, 1, 2 :: nat])) [0..<7] = [0, 1, 2, 0, 1, 2, 0 :: nat]"
          "map (\<lambda>i. [0] ! (i mod length [0 :: nat])) [0..<4] = [0, 0, 0, 0 :: nat]"
    by code_simp+
  have n: "Suc (length [0, 1, 2 :: nat]) + 0 = 4" by simp
  from Iter_linear_finite_ring_endless[of ?hl ?ll "[0, 1, 2]"] l
  have "\<forall>k. Iter (Suc (length [0, 1, 2 :: nat]) + k) (?hl, ?ll) = ([0, 1, 2], Returned ())"
    by blast
  then have "Iter (Suc (length [0, 1, 2 :: nat]) + 0) (?hl, ?ll) = ([0, 1, 2], Returned ())"
    by (rule spec)
  then have a: "Iter 4 (?hl, ?ll) = ([0, 1, 2], Returned ())" by (simp only: n)
  from Iter_linear_finite_ring_endless[of ?hr ?lr "[0, 1, 2]"] r
  have "\<forall>k. Iter k (?hr, ?lr) = (map (\<lambda>i. [0, 1, 2] ! (i mod length [0, 1, 2 :: nat])) [0..<k], Running)"
    by blast
  then have "Iter 7 (?hr, ?lr) = (map (\<lambda>i. [0, 1, 2] ! (i mod length [0, 1, 2 :: nat])) [0..<7], Running)"
    by (rule spec)
  then have b: "Iter 7 (?hr, ?lr) = ([0, 1, 2, 0, 1, 2, 0], Running)" by (simp only: e)
  from Iter_linear_finite_ring_endless[of ?ho ?lo "[0]"] o
  have "\<forall>k. Iter k (?ho, ?lo) = (map (\<lambda>i. [0] ! (i mod length [0 :: nat])) [0..<k], Running)"
    by blast
  then have "Iter 4 (?ho, ?lo) = (map (\<lambda>i. [0] ! (i mod length [0 :: nat])) [0..<4], Running)"
    by (rule spec)
  then have c: "Iter 4 (?ho, ?lo) = ([0, 0, 0, 0], Running)" by (simp only: e)
  from l a r b o c example_lists show ?thesis by blast
qed

text \<open>
  Claim C7 asks \<open>Remove\<close> to unlink exactly the first node with the value and to leave
  head, tail and ring link right.  The code does not, on lists built by \<open>Add\<close>:
  \<^item> on the ring 1, 2, 3, 4, 3, 5, \<open>Remove(3)\<close> unlinks both nodes with value 3 and leaves
    the ring 1, 2, 4, 5;
  \<^item> on the ring 1, 2, \<open>Remove(2)\<close> leaves \<open>tail\<close> at the node it removed, and a value
    added afterwards is not found;
  \<^item> on the ring 1, 2, \<open>Remove(1)\<close> leaves the node 2 with \<open>tail\<close> nil, and \<open>Remove(2)\<close>
    then panics;
  \<^item> on the linear list 1, 2, after \<open>Remove(2)\<close>, \<open>Remove(1)\<close> empties the list and leaves
    \<open>tail\<close> at the node it removed, and of two values added afterwards the second is
    not found.
\<close>

theorem Remove_defects:
  "Adds [1, 2, 3, 4, 3, 5 :: nat] (NewLinkedList \<lparr>Ring = True\<rparr>)
     = Returned ([\<lparr>node_value = 1, node_next = Some 1\<rparr>, \<lparr>node_value = 2, node_next = Some 2\<rparr>,
                  \<lparr>node_value = 3, node_next = Some 3\<rparr>, \<lparr>node_value = 4, node_next = Some 4\<rparr>,
                  \<lparr>node_value = 3, node_next = Some 5\<rparr>, \<lparr>node_value = 5, node_next = Some 0\<rparr>],
                 \<lparr>head = Some 0, tail = Some 5, ring = True\<rparr>)
   \<and> Remove 10 3 ([\<lparr>node_value = 1 :: nat, node_next = Some 1\<rparr>, \<lparr>node_value = 2, node_next = Some 2\<rparr>,
                  \<lparr>node_value = 3, node_next = Some 3\<rparr>, \<lparr>node_value = 4, node_next = Some 4\<rparr>,
                  \<lparr>node_value = 3, node_next = Some 5\<rparr>, \<lparr>node_value = 5, node_next = Some 0\<rparr>],
                 \<lparr>head = Some 0, tail = Some 5, ring = True\<rparr>)
     = Returned ([\<lparr>node_value = 1, node_next = Some 1\<rparr>, \<lparr>node_value = 2, node_next = Some 3\<rparr>,
                  \<lparr>node_value = 3, node_next = Some 3\<rparr>, \<lparr>node_value = 4, node_next = Some 5\<rparr>,
                  \<lparr>node_value = 3, node_next = Some 5\<rparr>, \<lparr>node_value = 5, node_next = Some 0\<rparr>],
                 \<lparr>head = Some 0, tail = Some 5, ring = True\<rparr>)
   \<and> ring_list ([\<lparr>node_value = 1 :: nat, node_next = Some 1\<rparr>, \<lparr>node_value = 2, node_next = Some 3\<rparr>,
                  \<lparr>node_value = 3, node_next = Some 3\<rparr>, \<lparr>node_value = 4, node_next = Some 5\<rparr>,
                  \<lparr>node_value = 3, node_next = Some 5\<rparr>, \<lparr>node_value = 5, node_next = Some 0\<rparr>],
                 \<lparr>head = Some 0, tail = Some 5, ring = True\<rparr>) [0, 1, 3, 5]
   \<and> values_of [\<lparr>node_value = 1 :: nat, node_next = Some 1\<rparr>, \<lparr>node_value = 2, node_next = Some 3\<rparr>,
                  \<lparr>node_value = 3, node_next = Some 3\<rparr>, \<lparr>node_value = 4, node_next = Some 5\<rparr>,
                  \<lparr>node_value = 3, node_next = Some 5\<rparr>, \<lparr>node_value = 5, node_next = Some 0\<rparr>]
        [0, 1, 3, 5] = [1, 2, 4, 5]
   \<and> Adds [1, 2 :: nat] (NewLinkedList \<lparr>Ring = True\<rparr>)
     = Returned ([\<lparr>node_value = 1, node_next = Some 1\<rparr>, \<lparr>node_value = 2, node_next = Some 0\<rparr>],
                 \<lparr>head = Some 0, tail = Some 1, ring = True\<rparr>)
   \<and> Remove 10 2 ([\<lparr>node_value = 1 :: nat, node_next = Some 1\<rparr>, \<lparr>node_value = 2, node_next = Some 0\<rparr>],
                 \<lparr>head = Some 0, tail = Some 1, ring = True\<rparr>)
     = Returned ([\<lparr>node_value = 1, node_next = None\<rparr>, \<lparr>node_value = 2, node_next = Some 0\<rparr>],
                 \<lparr>head = Some 0, tail = Some 1, ring = True\<rparr>)
   \<and> Remove 10 1 ([\<lparr>node_value = 1 :: nat, node_next = Some 1\<rparr>, \<lparr>node_value = 2, node_next = Some 0\<rparr>],
                 \<lparr>head = Some 0, tail = Some 1, ring = True\<rparr>)
     = Returned ([\<lparr>node_value = 1, node_next = Some 1\<rparr>, \<lparr>node_value = 2, node_next = Some 1\<rparr>],
                 \<lparr>head = Some 1, tail = None, ring = True\<rparr>)
   \<and> Remove 10 2 ([\<lparr>node_value = 1 :: nat, node_next = Some 1\<rparr>, \<lparr>node_value = 2, node_next = Some 1\<rparr>],
                 \<lparr>head = Some 1, tail = None, ring = True\<rparr>) = Panic
   \<and> Adds [3] ([\<lparr>node_value = 1 :: nat, node_next = None\<rparr>, \<lparr>node_value = 2, node_next = Some 0\<rparr>],
              \<lparr>head = Some 0, tail = Some 1, ring = True\<rparr>)
     = Returned ([\<lparr>node_value = 1, node_next = None\<rparr>, \<lparr>node_value = 2, node_next = Some 2\<rparr>,
                  \<lparr>node_value = 3, node_next = Some 0\<rparr>],
                 \<lparr>head = Some 0, tail = Some 2, ring = True\<rparr>)
   \<and> Contains 10 3 ([\<lparr>node_value = 1 :: nat, node_next = None\<rparr>, \<lparr>node_value = 2, node_next = Some 2\<rparr>,
                  \<lparr>node_value = 3, node_next = Some 0\<rparr>],
                 \<lparr>head = Some 0, tail = Some 2, ring = True\<rparr>) = Returned False
   \<and> Adds [1, 2 :: nat] (NewLinkedList \<lparr>Ring = False\<rparr>)
     = Returned ([\<lparr>node_value = 1, node_next = Some 1\<rparr>, \<lparr>node_value = 2, node_next = None\<rparr>],
                 \<lparr>head = Some 0, tail = Some 1, ring = False\<rparr>)
   \<and> Remove 10 2 ([\<lparr>node_value = 1 :: nat, node_next = Some 1\<rparr>, \<lparr>node_value = 2, node_next = None\<rparr>],
                 \<lparr>head = Some 0, tail = Some 1, ring = False\<rparr>)
     = Returned ([\<lparr>node_value = 1, node_next = None\<rparr>, \<lparr>node_value = 2, node_next = None\<rparr>],
                 \<lparr>head = Some 0, tail = Some 0, ring = False\<rparr>)
   \<and> Remove 10 1 ([\<lparr>node_value = 1 :: nat, node_next = None\<rparr>, \<lparr>node_value = 2, node_next = None\<rparr>],
                 \<lparr>head = Some 0, tail = Some 0, ring = False\<rparr>)
     = Returned ([\<lparr>node_value = 1, node_next = None\<rparr>, \<lparr>node_value = 2, node_next = None\<rparr>],
                 \<lparr>head = None, tail = Some 0, ring = False\<rparr>)
   \<and> Adds [7, 8] ([\<lparr>node_value = 1 :: nat, node_next = None\<rparr>, \<lparr>node_value = 2, node_next = None\<rparr>],
                 \<lparr>head = None, tail = Some 0, ring = False\<rparr>)
     = Returned ([\<lparr>node_value = 1, node_next = Some 3\<rparr>, \<lparr>node_value = 2, node_next = None\<rparr>,
                  \<lparr>node_value = 7, node_next = None\<rparr>, \<lparr>node_value = 8, node_next = None\<rparr>],
                 \<lparr>head = Some 2, tail = Some 3, ring = False\<rparr>)
   \<and> Contains 10 8 ([\<lparr>node_value = 1 :: nat, node_next = Some 3\<rparr>, \<lparr>node_value = 2, node_next = None\<rparr>,
                  \<lparr>node_value = 7, node_next = None\<rparr>, \<lparr>node_value = 8, node_next = None\<rparr>],
                 \<lparr>head = Some 2, tail = Some 3, ring = False\<rparr>) = Returned False"
  by (intro conjI; code_simp)


end
